theory Spec2Isabelle
  imports Main
begin

section \<open>Errors\<close>

text \<open>
  The exceptions the modelled code can raise, as values. \<open>ValueError\<close> and
  \<open>FileNotFoundError\<close> are the Python built-ins raised by \<^verbatim>\<open>pop_utils.py\<close>,
  \<^verbatim>\<open>config.py\<close> and \<^verbatim>\<open>database.py\<close>, with their messages. \<open>DuckDBError\<close> stands
  for any exception raised by a call on the DuckDB connection; the source catches none
  of them, so each one leaves \<^verbatim>\<open>generate_database\<close> at the call that raised it.
\<close>

datatype error =
    ValueError string
  | FileNotFoundError string
  | DuckDBError string

section \<open>The village-marriage mapping (\<^verbatim>\<open>pop_utils.py\<close>)\<close>

text \<open>
  Python's \<^verbatim>\<open>int\<close> is unbounded, and \<^verbatim>\<open>//\<close> and \<^verbatim>\<open>%\<close> round towards minus
  infinity, exactly as \<open>div\<close> and \<open>mod\<close> on \<open>int\<close> do. The local variable
  \<^verbatim>\<open>counter\<close> is reassigned in the source; the model names the reduced value
  \<open>counter'\<close>, and \<^verbatim>\<open>mod\<close> is \<open>md\<close>.
\<close>

definition get_marriage_to_village_id :: "int \<Rightarrow> int \<Rightarrow> error + int" where
  "get_marriage_to_village_id village_id counter =
     (if \<not> (village_id \<ge> 1) then Inl (ValueError ''VILLAGE_ID must be 1 or more.'')
      else if \<not> (counter \<ge> 1) then Inl (ValueError ''COUNTER must be 1 or more.'')
      else
        let counter' = ((counter - 1) mod 196) + 1;
            block = (counter' - 1) div 28;
            base_add = 1 + 4 * block;
            pos = counter' - 28 * block;
            add = (if pos mod 4 = 1 \<or> pos mod 4 = 2 then base_add else base_add + 2);
            base = ((village_id - 1) div 28) * 28;
            md = 28;
            local_id = village_id - base;
            result = ((local_id + add - 1) mod md) + 1 + base
        in Inr result)"

text \<open>
  The seven steps of section 4.2 of the specification, written from its words, for
  comparison with the function above.
\<close>

definition map_marriage_spec :: "int \<Rightarrow> int \<Rightarrow> int" where
  "map_marriage_spec village_id counter =
     (let c = ((counter - 1) mod 196) + 1;
          block = (c - 1) div 28;
          base_add = 1 + 4 * block;
          pos = c - 28 * block;
          add = (if pos mod 4 \<in> {1, 2} then base_add else base_add + 2);
          super_base = ((village_id - 1) div 28) * 28;
          local_id = village_id - super_base
      in ((local_id + add - 1) mod 28) + 1 + super_base)"

text \<open>
  Two names used in the proofs only: the offset \<^verbatim>\<open>add\<close> as a function of the
  counter, and the value returned on valid arguments.
\<close>

definition marriage_add :: "int \<Rightarrow> int" where
  "marriage_add counter =
     (let counter' = ((counter - 1) mod 196) + 1;
          block = (counter' - 1) div 28;
          base_add = 1 + 4 * block;
          pos = counter' - 28 * block
      in if pos mod 4 = 1 \<or> pos mod 4 = 2 then base_add else base_add + 2)"

definition marriage_result :: "int \<Rightarrow> int \<Rightarrow> int" where
  "marriage_result v c =
     ((v - ((v - 1) div 28) * 28 + marriage_add c - 1) mod 28) + 1 + ((v - 1) div 28) * 28"

section \<open>Data (\<^verbatim>\<open>database.py\<close>)\<close>

text \<open>
  A row of the sheet \<^verbatim>\<open>FINAL_POPULATION\<close> of the Excel source. The birth date cell is
  kept as the number of days between the date and 1899-12-30, which is what the source
  computes from it, and is \<open>None\<close> when the cell is empty. A sheet whose birth date
  column holds anything but dates and empty cells is outside the model.
\<close>

record raw_row =
  raw_COUNTER :: int
  raw_FAMILY_ID :: int
  raw_PERSON_ID :: int
  raw_BIRTH_DATE :: "int option"

text \<open>A row of the normalised base data frame, as written to the parquet file.\<close>

record base_row =
  b_COUNTER :: int
  b_FAMILY_ID :: int
  b_PERSON_ID :: int
  b_BIRTH_DATE_SERIAL :: "int option"
  b_Date_of_Birth :: "string option"

datatype gender = MALE | FEMALE

text \<open>
  The columns produced by the \<^verbatim>\<open>SELECT\<close> of the insertion query, and a row of the
  table \<^verbatim>\<open>population\<close>, which has the serial number in addition. The fields are
  integers without bound; the insertion checks them against the width of the columns,
  which the table declares \<^verbatim>\<open>INTEGER\<close> (32 bits, signed).
\<close>

record selected_row =
  COUNTER :: int
  FAMILY_ID :: int
  PERSON_ID :: int
  BIRTH_DATE :: "int option"
  VILLAGE_ID :: int
  GENDER :: gender
  Date_of_Birth :: "string option"
  MARRIED_TO_VILLAGE_ID :: int

record population_row = selected_row +
  SERIAL_NO :: int

text \<open>
  A DuckDB database file: the sequence \<^verbatim>\<open>seq\<close> (its next value, once created), the
  table \<^verbatim>\<open>population\<close> (its rows in insertion order, once created) and whether
  the index \<^verbatim>\<open>idx_village\<close> exists.
\<close>

record database =
  seq :: "int option"
  population :: "population_row list option"
  idx_village :: bool

record history_entry =
  h_db_id :: string
  h_db_path :: string
  h_num_villages :: int
  h_created_at :: string

text \<open>
  An entry of the activity log. The source renders the details of a generation as one
  string from the village count and the record count; the model keeps the two numbers.
\<close>

record log_entry =
  l_timestamp :: string
  l_user :: string
  l_action :: string
  l_villages :: int
  l_records :: nat

text \<open>The keys of \<^verbatim>\<open>st.session_state\<close> that the modelled code uses.\<close>

record session_state =
  ss_username :: string
  ss_db_path :: "string option"
  ss_db_generated :: bool
  ss_db_version :: int
  ss_num_villages :: int
  ss_db_id :: "string option"
  ss_history :: "string \<rightharpoonup> history_entry list"

datatype message = Error_message string | Success_message string nat

text \<open>
  Everything the code reads and writes: the Excel source and the parquet cache (absent
  when \<open>None\<close>), the in-process cache that \<^verbatim>\<open>st.cache_data\<close> keeps for
  \<^verbatim>\<open>load_base_data\<close>, the database files by path, the history file (the ledger),
  the log file, the session state and the messages shown.
\<close>

record world =
  excel_file :: "raw_row list option"
  parquet_file :: "base_row list option"
  base_cache :: "base_row list option"
  db_files :: "string \<rightharpoonup> database"
  history_file :: "(string \<rightharpoonup> history_entry list) option"
  log_file :: "log_entry list"
  session :: session_state
  messages :: "message list"

text \<open>
  The calls on the DuckDB connection made by \<^verbatim>\<open>generate_database\<close>, in the order of
  the source. Any of them can raise.
\<close>

datatype db_op =
    Connect
  | Register
  | CreateFunction
  | CreateSequence
  | CreateTable
  | InsertPopulation
  | CreateIndex
  | CountRows

text \<open>
  What the code takes from outside in one call: the text of \<^verbatim>\<open>uuid.uuid4()\<close>, the
  formatted current time, the rendering of a day serial by \<^verbatim>\<open>strftime\<close> with the
  format \<^verbatim>\<open>%A, %B %d, %Y\<close>, and which calls on the connection raise.
\<close>

record env =
  uuid4 :: string
  now :: string
  strftime :: "int \<Rightarrow> string"
  fails :: "db_op \<Rightarrow> bool"

section \<open>Configuration (\<^verbatim>\<open>config.py\<close>)\<close>

definition BASE_EXCEL :: string where "BASE_EXCEL = ''FINAL_POPULATION.xlsx''"
definition BASE_PARQUET :: string where "BASE_PARQUET = ''base_population.parquet''"
definition MIN_VILLAGES :: int where "MIN_VILLAGES = 28"
definition MAX_VILLAGES :: int where "MAX_VILLAGES = 280"

text \<open>
  The body of the module \<^verbatim>\<open>config\<close>, run when the module is first imported: it
  raises unless the Excel source exists.
\<close>

definition config :: "world \<Rightarrow> error + unit" where
  "config w =
     (if \<not> (excel_file w \<noteq> None)
      then Inl (FileNotFoundError
             (''Required file '' @ [CHR 0x27] @ BASE_EXCEL @ [CHR 0x27] @ '' not found!''))
      else Inr ())"

section \<open>The base data loader\<close>

definition normalise :: "env \<Rightarrow> raw_row \<Rightarrow> base_row" where
  "normalise env r =
     \<lparr> b_COUNTER = raw_COUNTER r,
       b_FAMILY_ID = raw_FAMILY_ID r,
       b_PERSON_ID = raw_PERSON_ID r,
       b_BIRTH_DATE_SERIAL = raw_BIRTH_DATE r,
       b_Date_of_Birth = map_option (strftime env) (raw_BIRTH_DATE r) \<rparr>"

text \<open>
  \<^verbatim>\<open>load_base_data\<close>. The decorator \<^verbatim>\<open>st.cache_data\<close> returns the value of an
  earlier call while it is cached; otherwise the body runs and its value is cached. The
  result is the data frame together with the world after the call.
\<close>

definition load_base_data :: "env \<Rightarrow> world \<Rightarrow> error + (base_row list \<times> world)" where
  "load_base_data env w =
     (case base_cache w of
        Some df \<Rightarrow> Inr (df, w)
      | None \<Rightarrow>
          (if \<not> (parquet_file w \<noteq> None) then
             (case excel_file w of
                None \<Rightarrow> Inl (FileNotFoundError (''Missing base file: '' @ BASE_EXCEL))
              | Some sheet \<Rightarrow>
                  (let df = map (normalise env) sheet
                   in Inr (df, w\<lparr>parquet_file := Some df, base_cache := Some df\<rparr>)))
           else
             (case parquet_file w of
                None \<Rightarrow> Inl (FileNotFoundError BASE_PARQUET)
              | Some df \<Rightarrow> Inr (df, w\<lparr>base_cache := Some df\<rparr>))))"

text \<open>
  The start of a run: \<^verbatim>\<open>main.py\<close> imports \<^verbatim>\<open>config\<close> before anything else, and
  \<^verbatim>\<open>main_tabs\<close>, reached once the user is logged in, begins with
  \<^verbatim>\<open>load_base_data()\<close>. The login pages in between touch none of the base files and
  are left out; the files are those present when the process starts.
\<close>

definition main_base_load :: "env \<Rightarrow> world \<Rightarrow> error + (base_row list \<times> world)" where
  "main_base_load env w =
     (case config w of
        Inl e \<Rightarrow> Inl e
      | Inr _ \<Rightarrow> load_base_data env w)"

section \<open>The insertion query\<close>

text \<open>
  The integer types of DuckDB: \<^verbatim>\<open>INTEGER\<close> is 32 bits and \<^verbatim>\<open>BIGINT\<close> 64 bits, both
  signed. A value that does not fit the type it is stored or computed in raises an
  error; nothing wraps around.
\<close>

definition fits_INTEGER :: "int \<Rightarrow> bool" where
  "fits_INTEGER x = (- 2147483648 \<le> x \<and> x \<le> 2147483647)"

definition fits_BIGINT :: "int \<Rightarrow> bool" where
  "fits_BIGINT x = (- 9223372036854775808 \<le> x \<and> x \<le> 9223372036854775807)"

text \<open>
  The second argument of \<^verbatim>\<open>range\<close> in the query text, \<^verbatim>\<open>{num_villages} + 1\<close>. The
  literal takes the smallest of \<^verbatim>\<open>INTEGER\<close> and \<^verbatim>\<open>BIGINT\<close> that holds it and the sum
  is computed in that type; a literal beyond \<^verbatim>\<open>BIGINT\<close> is no argument for
  \<^verbatim>\<open>range\<close>.
\<close>

definition query_upper :: "int \<Rightarrow> error + int" where
  "query_upper num_villages =
     (if fits_INTEGER num_villages then
        (if fits_INTEGER (num_villages + 1) then Inr (num_villages + 1)
         else Inl (DuckDBError ''Out of Range Error''))
      else if fits_BIGINT num_villages then
        (if fits_BIGINT (num_villages + 1) then Inr (num_villages + 1)
         else Inl (DuckDBError ''Out of Range Error''))
      else Inl (DuckDBError ''Binder Error''))"

text \<open>
  \<^verbatim>\<open>SELECT range AS vid FROM range(1, upper)\<close>: the village ids from 1 to
  \<open>upper - 1\<close>, none when \<open>upper\<close> is at most 1.
\<close>

definition villages :: "int \<Rightarrow> int list" where
  "villages upper = map int [1..<nat upper]"

text \<open>
  \<^verbatim>\<open>SELECT *, row_number() OVER () - 1 AS idx FROM base_df\<close>: each base row with its
  0-based position in the data frame.
\<close>

definition base_with_idx :: "base_row list \<Rightarrow> (int \<times> base_row) list" where
  "base_with_idx base_df = zip (map int [0..<length base_df]) base_df"

text \<open>
  The \<^verbatim>\<open>CASE\<close> expression of the query. The operands of \<^verbatim>\<open>%\<close> are never negative
  here, so SQL's remainder and \<open>mod\<close> agree.
\<close>

definition gender_of :: "int \<Rightarrow> int \<Rightarrow> gender" where
  "gender_of idx vid = (if ((idx mod 2 = 0) = (vid mod 2 = 1)) then MALE else FEMALE)"

text \<open>
  One row of the \<^verbatim>\<open>SELECT\<close>. The function \<^verbatim>\<open>get_marriage_id\<close> registered on the
  connection is \<^verbatim>\<open>get_marriage_to_village_id\<close>; when it raises, the query fails with
  its message.
\<close>

definition select_row :: "int \<Rightarrow> int \<times> base_row \<Rightarrow> error + selected_row" where
  "select_row vid ib =
     (case get_marriage_to_village_id vid (b_COUNTER (snd ib)) of
        Inl (ValueError msg) \<Rightarrow> Inl (DuckDBError msg)
      | Inl e \<Rightarrow> Inl e
      | Inr m \<Rightarrow>
          Inr \<lparr> COUNTER = b_COUNTER (snd ib),
                FAMILY_ID = b_FAMILY_ID (snd ib),
                PERSON_ID = b_PERSON_ID (snd ib),
                BIRTH_DATE = b_BIRTH_DATE_SERIAL (snd ib),
                VILLAGE_ID = vid,
                GENDER = gender_of (fst ib) vid,
                Date_of_Birth = b_Date_of_Birth (snd ib),
                MARRIED_TO_VILLAGE_ID = m \<rparr>)"

fun collect :: "(error + 'a) list \<Rightarrow> error + 'a list" where
  "collect [] = Inr []"
| "collect (x # xs) =
     (case x of
        Inl e \<Rightarrow> Inl e
      | Inr v \<Rightarrow> (case collect xs of Inl e \<Rightarrow> Inl e | Inr vs \<Rightarrow> Inr (v # vs)))"

text \<open>
  \<^verbatim>\<open>FROM villages v, base_with_idx b ORDER BY v.vid, b.idx\<close>: the cross product, by
  village and then by position in the base data.
\<close>

definition population_select :: "int \<Rightarrow> base_row list \<Rightarrow> error + selected_row list" where
  "population_select num_villages base_df =
     (case query_upper num_villages of
        Inl e \<Rightarrow> Inl e
      | Inr upper \<Rightarrow>
          collect (concat (map (\<lambda>vid. map (select_row vid) (base_with_idx base_df))
                               (villages upper))))"

definition with_serial :: "int \<Rightarrow> selected_row \<Rightarrow> population_row" where
  "with_serial n r =
     \<lparr> COUNTER = COUNTER r, FAMILY_ID = FAMILY_ID r, PERSON_ID = PERSON_ID r,
       BIRTH_DATE = BIRTH_DATE r, VILLAGE_ID = VILLAGE_ID r, GENDER = GENDER r,
       Date_of_Birth = Date_of_Birth r, MARRIED_TO_VILLAGE_ID = MARRIED_TO_VILLAGE_ID r,
       SERIAL_NO = n \<rparr>"

text \<open>
  The serial number is the column default \<^verbatim>\<open>nextval('seq')\<close>: the rows take
  consecutive values of the sequence in the order the query yields them.
\<close>

definition number_rows :: "int \<Rightarrow> selected_row list \<Rightarrow> population_row list" where
  "number_rows s rows = map (\<lambda>(i, r). with_serial (s + int i) r) (enumerate 0 rows)"

text \<open>
  A row can be stored when each of its values fits its column: all columns but
  \<^verbatim>\<open>GENDER\<close> and \<^verbatim>\<open>Date_of_Birth\<close> are declared \<^verbatim>\<open>INTEGER\<close>, and a missing birth
  date is stored as \<^verbatim>\<open>NULL\<close>.
\<close>

definition row_fits :: "population_row \<Rightarrow> bool" where
  "row_fits r =
     (fits_INTEGER (SERIAL_NO r) \<and> fits_INTEGER (COUNTER r) \<and> fits_INTEGER (FAMILY_ID r) \<and>
      fits_INTEGER (PERSON_ID r) \<and>
      (case BIRTH_DATE r of None \<Rightarrow> True | Some d \<Rightarrow> fits_INTEGER d) \<and>
      fits_INTEGER (VILLAGE_ID r) \<and> fits_INTEGER (MARRIED_TO_VILLAGE_ID r))"

section \<open>Statements on a database\<close>

definition empty_database :: database where
  "empty_database = \<lparr> seq = None, population = None, idx_village = False \<rparr>"

definition create_sequence :: "database \<Rightarrow> error + database" where
  "create_sequence db =
     (case seq db of
        Some _ \<Rightarrow> Inl (DuckDBError ''Catalog Error: seq already exists'')
      | None \<Rightarrow> Inr (db\<lparr>seq := Some 1\<rparr>))"

definition create_table :: "database \<Rightarrow> error + database" where
  "create_table db =
     (case population db of
        Some _ \<Rightarrow> Inl (DuckDBError ''Catalog Error: population already exists'')
      | None \<Rightarrow> Inr (db\<lparr>population := Some []\<rparr>))"

text \<open>
  The \<^verbatim>\<open>INSERT\<close>. It raises when the query raises and when a value of a row does
  not fit its column; then no row is stored.
\<close>

definition insert_population :: "int \<Rightarrow> base_row list \<Rightarrow> database \<Rightarrow> error + database" where
  "insert_population num_villages base_df db =
     (case seq db of
        None \<Rightarrow> Inl (DuckDBError ''Catalog Error: seq does not exist'')
      | Some s \<Rightarrow>
          (case population db of
             None \<Rightarrow> Inl (DuckDBError ''Catalog Error: population does not exist'')
           | Some tbl \<Rightarrow>
               (case population_select num_villages base_df of
                  Inl e \<Rightarrow> Inl e
                | Inr rows \<Rightarrow>
                    (if \<not> list_all row_fits (number_rows s rows)
                     then Inl (DuckDBError ''Conversion Error'')
                     else Inr (db\<lparr> seq := Some (s + int (length rows)),
                                   population := Some (tbl @ number_rows s rows) \<rparr>)))))"

definition create_index :: "database \<Rightarrow> error + database" where
  "create_index db =
     (case population db of
        None \<Rightarrow> Inl (DuckDBError ''Catalog Error: population does not exist'')
      | Some _ \<Rightarrow>
          (if idx_village db then Inl (DuckDBError ''Catalog Error: idx_village already exists'')
           else Inr (db\<lparr>idx_village := True\<rparr>)))"

definition count_rows :: "database \<Rightarrow> error + nat" where
  "count_rows db =
     (case population db of
        None \<Rightarrow> Inl (DuckDBError ''Catalog Error: population does not exist'')
      | Some tbl \<Rightarrow> Inr (length tbl))"

text \<open>
  \<^verbatim>\<open>duckdb.connect(db_path)\<close> creates the file when it does not exist. A statement
  that raises changes nothing (DuckDB runs each statement in its own transaction); one
  that succeeds is committed to the file at once.
\<close>

definition connect :: "env \<Rightarrow> string \<Rightarrow> world \<Rightarrow> error + world" where
  "connect env path w =
     (if fails env Connect then Inl (DuckDBError ''IO Error'')
      else (case db_files w path of
              None \<Rightarrow> Inr (w\<lparr>db_files := (db_files w)(path \<mapsto> empty_database)\<rparr>)
            | Some _ \<Rightarrow> Inr w))"

definition execute ::
  "env \<Rightarrow> db_op \<Rightarrow> (database \<Rightarrow> error + database) \<Rightarrow> string \<Rightarrow> world \<Rightarrow> error + world" where
  "execute env op stmt path w =
     (if fails env op then Inl (DuckDBError ''IO Error'')
      else (case db_files w path of
              None \<Rightarrow> Inl (DuckDBError ''Connection Error'')
            | Some db \<Rightarrow>
                (case stmt db of
                   Inl e \<Rightarrow> Inl e
                 | Inr db' \<Rightarrow> Inr (w\<lparr>db_files := (db_files w)(path \<mapsto> db')\<rparr>))))"

definition fetch_count :: "env \<Rightarrow> string \<Rightarrow> world \<Rightarrow> error + nat" where
  "fetch_count env path w =
     (if fails env CountRows then Inl (DuckDBError ''IO Error'')
      else (case db_files w path of
              None \<Rightarrow> Inl (DuckDBError ''Connection Error'')
            | Some db \<Rightarrow> count_rows db))"

section \<open>\<^verbatim>\<open>generate_database\<close>\<close>

definition new_db_id :: "env \<Rightarrow> string" where
  "new_db_id env = take 8 (uuid4 env)"

definition new_db_path :: "env \<Rightarrow> world \<Rightarrow> string" where
  "new_db_path env w = ''villages_'' @ ss_username (session w) @ ''_'' @ new_db_id env @ ''.db''"

definition load_json :: "(string \<rightharpoonup> history_entry list) option \<Rightarrow> (string \<rightharpoonup> history_entry list)" where
  "load_json file = (case file of None \<Rightarrow> Map.empty | Some h \<Rightarrow> h)"

text \<open>
  The part of \<^verbatim>\<open>generate_database\<close> after the connection is closed: the session
  state, the history file, the log and the success message. The download button that
  follows only reads the new file.
\<close>

definition record_generation :: "env \<Rightarrow> int \<Rightarrow> string \<Rightarrow> nat \<Rightarrow> world \<Rightarrow> world" where
  "record_generation env n path total_records w =
     (let user = ss_username (session w);
          entry = \<lparr> h_db_id = new_db_id env, h_db_path = path,
                    h_num_villages = n, h_created_at = now env \<rparr>;
          hist = load_json (history_file w);
          hist' = hist(user \<mapsto> (case hist user of None \<Rightarrow> [] | Some es \<Rightarrow> es) @ [entry])
      in w\<lparr> session := (session w)\<lparr> ss_db_path := Some path, ss_db_generated := True,
                                     ss_db_version := ss_db_version (session w) + 1,
                                     ss_num_villages := n, ss_db_id := Some (new_db_id env),
                                     ss_history := hist' \<rparr>,
             history_file := Some hist',
             log_file := log_file w @
               [\<lparr> l_timestamp = now env, l_user = user, l_action = ''GENERATE_DB'',
                  l_villages = n, l_records = total_records \<rparr>],
             messages := messages w @ [Success_message path total_records] \<rparr>)"

text \<open>
  The result is \<open>Inr\<close> of the world after a run that returns, and \<open>Inl\<close> of the
  exception and the world it leaves behind for a run that raises.
\<close>

definition generate_database :: "env \<Rightarrow> int \<Rightarrow> world \<Rightarrow> (error \<times> world) + world" where
  "generate_database env n w =
     (let path = new_db_path env w;
          w0 = (if db_files w path \<noteq> None then w\<lparr>db_files := (db_files w)(path := None)\<rparr> else w)
      in case load_base_data env w0 of
           Inl e \<Rightarrow> Inl (e, w0)
         | Inr (base_df, w1) \<Rightarrow>
      (case connect env path w1 of
           Inl e \<Rightarrow> Inl (e, w1)
         | Inr w2 \<Rightarrow>
      (case execute env Register Inr path w2 of
           Inl e \<Rightarrow> Inl (e, w2)
         | Inr w3 \<Rightarrow>
      (case execute env CreateFunction Inr path w3 of
           Inl e \<Rightarrow> Inl (e, w3)
         | Inr w4 \<Rightarrow>
      (case execute env CreateSequence create_sequence path w4 of
           Inl e \<Rightarrow> Inl (e, w4)
         | Inr w5 \<Rightarrow>
      (case execute env CreateTable create_table path w5 of
           Inl e \<Rightarrow> Inl (e, w5)
         | Inr w6 \<Rightarrow>
      (case execute env InsertPopulation (insert_population n base_df) path w6 of
           Inl e \<Rightarrow> Inl (e, w6)
         | Inr w7 \<Rightarrow>
      (case execute env CreateIndex create_index path w7 of
           Inl e \<Rightarrow> Inl (e, w7)
         | Inr w8 \<Rightarrow>
      (case fetch_count env path w8 of
           Inl e \<Rightarrow> Inl (e, w8)
         | Inr total_records \<Rightarrow> Inr (record_generation env n path total_records w8))))))))))"

section \<open>The generate button (\<^verbatim>\<open>ui.py\<close>)\<close>

text \<open>
  The body run in \<^verbatim>\<open>main_tabs\<close> when the administrator presses
  \<^verbatim>\<open>Generate Database\<close> with \<open>num\<close> in the number input (the regenerate button
  runs the same body). The bounds \<open>MIN_VILLAGES\<close> and \<open>MAX_VILLAGES\<close> are given to the
  input widget and are checked nowhere in the code.
\<close>

definition generate_button :: "env \<Rightarrow> int \<Rightarrow> world \<Rightarrow> (error \<times> world) + world" where
  "generate_button env num w =
     (if num mod 28 \<noteq> 0
      then Inr (w\<lparr>messages := messages w @
                   [Error_message ''Number of villages must be a multiple of 28!'']\<rparr>)
      else generate_database env num w)"

section \<open>Names used in the statements and proofs\<close>

text \<open>
  The row that \<open>select_row\<close> yields when the mapping returns, written without the
  error case.
\<close>

definition row_of :: "int \<Rightarrow> int \<times> base_row \<Rightarrow> selected_row" where
  "row_of vid ib =
     \<lparr> COUNTER = b_COUNTER (snd ib),
       FAMILY_ID = b_FAMILY_ID (snd ib),
       PERSON_ID = b_PERSON_ID (snd ib),
       BIRTH_DATE = b_BIRTH_DATE_SERIAL (snd ib),
       VILLAGE_ID = vid,
       GENDER = gender_of (fst ib) vid,
       Date_of_Birth = b_Date_of_Birth (snd ib),
       MARRIED_TO_VILLAGE_ID = marriage_result vid (b_COUNTER (snd ib)) \<rparr>"

text \<open>The rows of one village, in table order, and the number of rows of one gender.\<close>

definition village_rows ::
  "int \<Rightarrow> 'a selected_row_scheme list \<Rightarrow> 'a selected_row_scheme list" where
  "village_rows v rows = filter (\<lambda>r. VILLAGE_ID r = v) rows"

definition gender_count :: "gender \<Rightarrow> 'a selected_row_scheme list \<Rightarrow> nat" where
  "gender_count g rows = length (filter (\<lambda>r. GENDER r = g) rows)"

text \<open>A stored row without its serial number.\<close>

definition selected_columns :: "population_row \<Rightarrow> selected_row" where
  "selected_columns r =
     \<lparr> COUNTER = COUNTER r, FAMILY_ID = FAMILY_ID r, PERSON_ID = PERSON_ID r,
       BIRTH_DATE = BIRTH_DATE r, VILLAGE_ID = VILLAGE_ID r, GENDER = GENDER r,
       Date_of_Birth = Date_of_Birth r, MARRIED_TO_VILLAGE_ID = MARRIED_TO_VILLAGE_ID r \<rparr>"

text \<open>
  A village count the generate page accepts: between the bounds of the number input and
  a multiple of 28. A base row whose numbers fit the columns they are stored in.
\<close>

definition valid_village_count :: "int \<Rightarrow> bool" where
  "valid_village_count n = (MIN_VILLAGES \<le> n \<and> n \<le> MAX_VILLAGES \<and> n mod 28 = 0)"

definition base_row_fits :: "base_row \<Rightarrow> bool" where
  "base_row_fits b =
     (fits_INTEGER (b_COUNTER b) \<and> fits_INTEGER (b_FAMILY_ID b) \<and>
      fits_INTEGER (b_PERSON_ID b) \<and>
      (case b_BIRTH_DATE_SERIAL b of None \<Rightarrow> True | Some d \<Rightarrow> fits_INTEGER d))"

text \<open>
  Observations of a world: the number of rows of the table \<^verbatim>\<open>population\<close> in the
  database file at a path (\<open>None\<close> without file or table), and the ledger entries of
  a user.
\<close>

definition table_rows :: "world \<Rightarrow> string \<Rightarrow> nat option" where
  "table_rows w path =
     (case db_files w path of
        None \<Rightarrow> None
      | Some db \<Rightarrow> map_option length (population db))"

definition ledger_entries :: "world \<Rightarrow> string \<Rightarrow> history_entry list" where
  "ledger_entries w user =
     (case load_json (history_file w) user of None \<Rightarrow> [] | Some es \<Rightarrow> es)"

text \<open>The exception of a run, if it raised, and the world it ends in.\<close>

definition raised :: "(error \<times> world) + world \<Rightarrow> error option" where
  "raised r = (case r of Inl ew \<Rightarrow> Some (fst ew) | Inr _ \<Rightarrow> None)"

definition final_world :: "(error \<times> world) + world \<Rightarrow> world" where
  "final_world r = (case r of Inl ew \<Rightarrow> snd ew | Inr w \<Rightarrow> w)"

text \<open>
  A small concrete run: the administrator is logged in, the base data of two people is
  cached, and no database or ledger exists yet.
\<close>

definition example_base :: "base_row list" where
  "example_base =
     [\<lparr> b_COUNTER = 1, b_FAMILY_ID = 1, b_PERSON_ID = 1,
        b_BIRTH_DATE_SERIAL = Some 30000,
        b_Date_of_Birth = Some ''Friday, February 19, 1982'' \<rparr>,
      \<lparr> b_COUNTER = 2, b_FAMILY_ID = 1, b_PERSON_ID = 2,
        b_BIRTH_DATE_SERIAL = None, b_Date_of_Birth = None \<rparr>]"

definition example_world :: world where
  "example_world =
     \<lparr> excel_file = Some [], parquet_file = Some example_base,
       base_cache = Some example_base,
       db_files = Map.empty, history_file = None, log_file = [],
       session = \<lparr> ss_username = ''admin'', ss_db_path = None, ss_db_generated = False,
                   ss_db_version = 0, ss_num_villages = 28, ss_db_id = None,
                   ss_history = Map.empty \<rparr>,
       messages = [] \<rparr>"

definition example_env :: "(db_op \<Rightarrow> bool) \<Rightarrow> env" where
  "example_env f =
     \<lparr> uuid4 = ''1b9d6bcd-bbfd-4b2d-9b5d-ab8dfbbd4bed'', now = ''2024-01-01 12:00:00'',
       strftime = (\<lambda>d. ''date''), fails = f \<rparr>"

definition example_path :: string where
  "example_path = ''villages_admin_1b9d6bcd.db''"

definition no_failure :: "db_op \<Rightarrow> bool" where
  "no_failure op = False"

definition insert_fails :: "db_op \<Rightarrow> bool" where
  "insert_fails op = (op = InsertPopulation)"

definition index_fails :: "db_op \<Rightarrow> bool" where
  "index_fails op = (op = CreateIndex)"

text \<open>A base row too wide for its column, for the example world.\<close>

definition wide_base :: "base_row list" where
  "wide_base =
     [\<lparr> b_COUNTER = 1, b_FAMILY_ID = 3000000000, b_PERSON_ID = 1,
        b_BIRTH_DATE_SERIAL = None, b_Date_of_Birth = None \<rparr>]"

text \<open>
  The rows the query yields for \<open>n\<close> villages when no call of the mapping raises:
  village by village, each village in the order of the base data.
\<close>

definition expected_rows :: "nat \<Rightarrow> base_row list \<Rightarrow> selected_row list" where
  "expected_rows n base_df =
     concat (map (\<lambda>k. map (row_of (int k + 1)) (base_with_idx base_df)) [0..<n])"

section \<open>Properties of the mapping\<close>

lemma marriage_value:
  assumes "1 \<le> v" "1 \<le> c"
  shows "get_marriage_to_village_id v c = Inr (marriage_result v c)"
proof -
  have "\<not> \<not> (v \<ge> 1)" "\<not> \<not> (c \<ge> 1)" using assms by simp_all
  then show ?thesis
    unfolding get_marriage_to_village_id_def marriage_result_def marriage_add_def Let_def
    by (simp only: if_False)
qed

lemma marriage_bad_village:
  assumes "\<not> 1 \<le> v"
  shows "get_marriage_to_village_id v c = Inl (ValueError ''VILLAGE_ID must be 1 or more.'')"
  unfolding get_marriage_to_village_id_def using assms by (simp only: if_True simp_thms)

lemma marriage_bad_counter:
  assumes "1 \<le> v" "\<not> 1 \<le> c"
  shows "get_marriage_to_village_id v c = Inl (ValueError ''COUNTER must be 1 or more.'')"
  unfolding get_marriage_to_village_id_def using assms
  by (simp only: if_True if_False simp_thms)

lemma spec_value: "map_marriage_spec v c = marriage_result v c"
  unfolding map_marriage_spec_def marriage_result_def marriage_add_def Let_def
  by (simp only: insert_iff empty_iff simp_thms)

lemma marriage_add_range: "1 \<le> marriage_add c \<and> marriage_add c \<le> 27"
proof -
  define r where "r = (c - 1) mod 196"
  have "0 \<le> r" "r < 196" by (simp_all add: r_def)
  then have b: "0 \<le> r div 28" "r div 28 \<le> 6" by simp_all
  show ?thesis
    unfolding marriage_add_def Let_def r_def[symmetric]
    using b by (simp split: if_splits)
qed



lemma local_pos: "v - ((v - 1) div 28) * 28 - 1 = (v - 1) mod (28::int)"
  by (simp add: minus_div_mult_eq_mod [symmetric] algebra_simps)

lemma marriage_result_block: "(marriage_result v c - 1) div 28 = (v - 1) div 28"
  by (simp add: marriage_result_def)

lemma marriage_result_differs: "marriage_result v c \<noteq> v"
proof
  define a where "a = marriage_add c"
  have a: "1 \<le> a" "a \<le> 27"
    using marriage_add_range [of c] by (simp_all add: a_def)
  assume "marriage_result v c = v"
  then have eq: "((v - ((v - 1) div 28) * 28 + a - 1) mod 28) + 1 + ((v - 1) div 28) * 28 = v"
    by (simp only: marriage_result_def a_def)
  have "v - ((v - 1) div 28) * 28 + a - 1 = (v - 1) mod 28 + a"
    using local_pos [of v] by simp
  with eq have "((v - 1) mod 28 + a) mod 28 = v - ((v - 1) div 28) * 28 - 1"
    by simp
  then have "((v - 1) mod 28 + a) mod 28 = (v - 1) mod 28"
    by (simp only: local_pos)
  then have "((v - 1) mod 28 + a) mod 28 = ((v - 1) mod 28) mod 28"
    by simp
  then have "28 dvd ((v - 1) mod 28 + a) - (v - 1) mod 28"
    by (simp only: mod_eq_dvd_iff)
  then have "28 dvd a" by simp
  with a show False by presburger
qed

text \<open>
  C1. For every village id at least 1 and every counter at least 1 the mapping returns
  a village of the same block of 28 villages as the village id:
  \<open>(result - 1) div 28 = (village_id - 1) div 28\<close>. Marriages never leave the block.
\<close>

theorem marriage_same_super_block:
  assumes "1 \<le> village_id" and "1 \<le> counter"
  shows "\<exists>result. get_marriage_to_village_id village_id counter = Inr result \<and>
           (result - 1) div 28 = (village_id - 1) div 28"
  by (simp add: marriage_value [OF assms] marriage_result_block)

theorem marriage_same_super_block_witness:
  "(1::int) \<le> 57 \<and> (1::int) \<le> 200 \<and>
   (\<exists>result. get_marriage_to_village_id 57 200 = Inr result \<and>
      (result - 1) div 28 = (57 - 1) div 28)"
  using marriage_same_super_block [of 57 200] by simp

text \<open>
  C2. For every village id at least 1 and every counter at least 1 the mapping returns
  the value of the seven steps of the specification (\<open>map_marriage_spec\<close>); for
  village 1 and counter 1 it returns 2.
\<close>

theorem marriage_refines_spec:
  "(1 \<le> village_id \<longrightarrow> 1 \<le> counter \<longrightarrow>
      get_marriage_to_village_id village_id counter =
        Inr (map_marriage_spec village_id counter))
   \<and> get_marriage_to_village_id 1 1 = Inr 2"
proof (intro conjI impI)
  assume "1 \<le> village_id" "1 \<le> counter"
  then show "get_marriage_to_village_id village_id counter =
      Inr (map_marriage_spec village_id counter)"
    by (simp only: marriage_value spec_value)
next
  have "get_marriage_to_village_id 1 1 = Inr (marriage_result 1 1)"
    by (rule marriage_value) simp_all
  also have "marriage_result 1 1 = 2"
    by (simp add: marriage_result_def marriage_add_def)
  finally show "get_marriage_to_village_id 1 1 = Inr 2" .
qed

theorem marriage_refines_spec_witness:
  "get_marriage_to_village_id 30 199 = Inr (map_marriage_spec 30 199) \<and>
   map_marriage_spec 30 199 = 33"
proof -
  have "get_marriage_to_village_id 30 199 = Inr (map_marriage_spec 30 199)"
    using marriage_refines_spec [of 30 199] by simp
  moreover have "map_marriage_spec 30 199 = 33"
    by (simp add: map_marriage_spec_def)
  ultimately show ?thesis by simp
qed



text \<open>
  C7. The mapping raises its argument error (\<open>ValueError\<close>) exactly when the village
  id or the counter is less than 1, and returns a value exactly when both are at least
  1; nothing is clamped.
\<close>

theorem marriage_fails_iff_invalid:
  "((village_id < 1 \<or> counter < 1) \<longleftrightarrow>
      (\<exists>msg. get_marriage_to_village_id village_id counter = Inl (ValueError msg)))
   \<and> ((1 \<le> village_id \<and> 1 \<le> counter) \<longleftrightarrow>
      (\<exists>result. get_marriage_to_village_id village_id counter = Inr result))"
proof -
  consider (ok) "1 \<le> village_id" "1 \<le> counter"
    | (bad_village) "\<not> 1 \<le> village_id"
    | (bad_counter) "1 \<le> village_id" "\<not> 1 \<le> counter"
    by blast
  then show ?thesis
  proof cases
    case ok
    then show ?thesis by (simp add: marriage_value)
  next
    case bad_village
    then show ?thesis by (simp add: marriage_bad_village)
  next
    case bad_counter
    then show ?thesis by (simp add: marriage_bad_counter)
  qed
qed

theorem marriage_fails_iff_invalid_witness:
  "(\<exists>msg. get_marriage_to_village_id 0 5 = Inl (ValueError msg)) \<and>
   (\<exists>msg. get_marriage_to_village_id 5 0 = Inl (ValueError msg)) \<and>
   (\<exists>result. get_marriage_to_village_id 1 1 = Inr result)"
  using marriage_fails_iff_invalid [of 0 5] marriage_fails_iff_invalid [of 5 0]
    marriage_fails_iff_invalid [of 1 1]
  by simp

text \<open>
  C9. For every village id at least 1 and every counter at least 1 the mapping returns
  a village other than the village id: the offset added within the block lies between 1
  and 27, so it is never a multiple of 28.
\<close>

theorem marriage_never_own_village:
  assumes "1 \<le> village_id" and "1 \<le> counter"
  shows "\<exists>result. get_marriage_to_village_id village_id counter = Inr result \<and>
           result \<noteq> village_id"
  by (simp add: marriage_value [OF assms] marriage_result_differs)

theorem marriage_never_own_village_witness:
  "(1::int) \<le> 29 \<and> (1::int) \<le> 3 \<and>
   (\<exists>result. get_marriage_to_village_id 29 3 = Inr result \<and> result \<noteq> 29)"
  using marriage_never_own_village [of 29 3] by simp

section \<open>The rows of the insertion query\<close>

lemma collect_all_ok:
  "(\<And>x. x \<in> set xs \<Longrightarrow> f x = Inr (g x)) \<Longrightarrow> collect (map f xs) = Inr (map g xs)"
  by (induction xs) simp_all

lemma collect_append:
  "collect xs = Inr a \<Longrightarrow> collect ys = Inr b \<Longrightarrow> collect (xs @ ys) = Inr (a @ b)"
  by (induction xs arbitrary: a) (auto split: sum.splits)

lemma collect_blocks:
  assumes "\<And>v x. v \<in> set vs \<Longrightarrow> x \<in> set xs \<Longrightarrow> f v x = Inr (g v x)"
  shows "collect (concat (map (\<lambda>v. map (f v) xs) vs)) =
         Inr (concat (map (\<lambda>v. map (g v) xs) vs))"
  using assms
proof (induction vs)
  case Nil
  show ?case by simp
next
  case (Cons v vs)
  have "collect (map (f v) xs) = Inr (map (g v) xs)"
    by (rule collect_all_ok) (simp add: Cons.prems)
  moreover have "collect (concat (map (\<lambda>v. map (f v) xs) vs)) =
      Inr (concat (map (\<lambda>v. map (g v) xs) vs))"
    by (rule Cons.IH) (simp add: Cons.prems)
  ultimately show ?case
    by (simp add: collect_append)
qed

lemma select_row_ok:
  assumes "1 \<le> vid" and "1 \<le> b_COUNTER (snd ib)"
  shows "select_row vid ib = Inr (row_of vid ib)"
  by (simp add: select_row_def row_of_def marriage_value [OF assms])

lemma villages_alt: "villages (V + 1) = map (\<lambda>k. int k + 1) [0..<nat V]"
proof (cases "0 \<le> V")
  case True
  then have "nat (V + 1) = Suc (nat V)" by simp
  moreover have "[1..<Suc (nat V)] = map Suc [0..<nat V]"
    by (simp only: map_Suc_upt One_nat_def)
  then have "map int [1..<Suc (nat V)] = map (\<lambda>k. int k + 1) [0..<nat V]"
    by (simp only: map_map o_def of_nat_Suc add.commute)
  ultimately show ?thesis by (simp add: villages_def)
next
  case False
  then show ?thesis by (simp add: villages_def)
qed

lemma length_base_with_idx: "length (base_with_idx base_df) = length base_df"
  by (simp add: base_with_idx_def)

lemma nth_base_with_idx:
  "i < length base_df \<Longrightarrow> base_with_idx base_df ! i = (int i, base_df ! i)"
  by (simp add: base_with_idx_def)

lemma snd_base_with_idx: "ib \<in> set (base_with_idx base_df) \<Longrightarrow> snd ib \<in> set base_df"
  by (cases ib) (auto simp add: base_with_idx_def dest: set_zip_rightD)

lemma query_upper_Inr: "query_upper V = Inr u \<Longrightarrow> u = V + 1"
  by (auto simp add: query_upper_def split: if_splits)

lemma query_upper_ok:
  "fits_INTEGER V \<Longrightarrow> fits_INTEGER (V + 1) \<Longrightarrow> query_upper V = Inr (V + 1)"
  by (simp add: query_upper_def)

lemma population_select_ok:
  assumes "query_upper V = Inr (V + 1)" and "\<forall>b\<in>set base_df. 1 \<le> b_COUNTER b"
  shows "population_select V base_df = Inr (expected_rows (nat V) base_df)"
proof -
  have "collect (concat (map (\<lambda>vid. map (select_row vid) (base_with_idx base_df))
            (villages (V + 1))))
      = Inr (concat (map (\<lambda>vid. map (row_of vid) (base_with_idx base_df)) (villages (V + 1))))"
  proof (rule collect_blocks)
    fix v x
    assume "v \<in> set (villages (V + 1))" and "x \<in> set (base_with_idx base_df)"
    then have "1 \<le> v" and "1 \<le> b_COUNTER (snd x)"
      using assms(2) by (auto simp add: villages_alt dest: snd_base_with_idx)
    then show "select_row v x = Inr (row_of v x)"
      by (rule select_row_ok)
  qed
  then show ?thesis
    by (simp add: population_select_def assms(1) expected_rows_def villages_alt o_def)
qed

text \<open>Conversely, whatever the query returns is the list of expected rows.\<close>

lemma collect_Inr: "collect xs = Inr ys \<Longrightarrow> xs = map Inr ys"
  by (induction xs arbitrary: ys) (auto split: sum.splits)

lemma select_row_Inr:
  assumes "select_row vid ib = Inr r"
  shows "select_row vid ib = Inr (row_of vid ib)"
proof (cases "1 \<le> vid \<and> 1 \<le> b_COUNTER (snd ib)")
  case True
  then show ?thesis by (simp add: select_row_ok)
next
  case False
  then consider "\<not> 1 \<le> vid" | "1 \<le> vid" "\<not> 1 \<le> b_COUNTER (snd ib)" by blast
  then have "\<exists>e. select_row vid ib = Inl e"
  proof cases
    case 1
    then show ?thesis by (simp add: select_row_def marriage_bad_village)
  next
    case 2
    then show ?thesis by (simp add: select_row_def marriage_bad_counter)
  qed
  with assms show ?thesis by auto
qed

lemma population_select_Inr:
  assumes "population_select V base_df = Inr rows"
  shows "rows = expected_rows (nat V) base_df"
proof -
  define xs where "xs = concat (map (\<lambda>vid. map (select_row vid) (base_with_idx base_df))
      (villages (V + 1)))"
  from assms obtain u where u: "query_upper V = Inr u"
    by (cases "query_upper V") (simp_all add: population_select_def)
  then have u': "u = V + 1" by (rule query_upper_Inr)
  from assms u have c: "collect xs = Inr rows"
    by (simp add: population_select_def xs_def u')
  then have xs: "xs = map Inr rows" by (rule collect_Inr)
  have "collect xs = Inr (concat (map (\<lambda>vid. map (row_of vid) (base_with_idx base_df))
      (villages (V + 1))))"
    unfolding xs_def
  proof (rule collect_blocks)
    fix v x
    assume "v \<in> set (villages (V + 1))" and "x \<in> set (base_with_idx base_df)"
    then have "select_row v x \<in> set xs"
      by (auto simp add: xs_def)
    then obtain r where "select_row v x = Inr r"
      unfolding xs by auto
    then show "select_row v x = Inr (row_of v x)"
      by (rule select_row_Inr)
  qed
  with c show ?thesis
    by (simp add: expected_rows_def villages_alt o_def)
qed

lemma in_expected_rows:
  assumes "r \<in> set (expected_rows n base_df)"
  shows "\<exists>k<n. \<exists>ib\<in>set (base_with_idx base_df). r = row_of (int k + 1) ib"
  using assms by (auto simp add: expected_rows_def)

lemma expected_rows_Suc:
  "expected_rows (Suc n) base_df =
     expected_rows n base_df @ map (row_of (int n + 1)) (base_with_idx base_df)"
  by (simp add: expected_rows_def)

lemma length_expected_rows: "length (expected_rows n base_df) = n * length base_df"
  by (induction n) (simp_all add: expected_rows_Suc length_base_with_idx, simp add: expected_rows_def)

lemma nth_expected_rows:
  assumes "k < n" and "i < length base_df"
  shows "expected_rows n base_df ! (k * length base_df + i) = row_of (int k + 1) (int i, base_df ! i)"
  using assms(1)
proof (induction n)
  case 0
  then show ?case by simp
next
  case (Suc n)
  show ?case
  proof (cases "k < n")
    case True
    then have "Suc k * length base_df \<le> n * length base_df"
      by (intro mult_le_mono1) simp
    with assms(2) have "k * length base_df + i < length (expected_rows n base_df)"
      by (simp add: length_expected_rows)
    then show ?thesis
      using Suc.IH [OF True] by (simp add: expected_rows_Suc nth_append)
  next
    case False
    with Suc.prems have "k = n" by simp
    then show ?thesis
      using assms(2)
      by (simp add: expected_rows_Suc nth_append length_expected_rows
            length_base_with_idx nth_base_with_idx)
  qed
qed

lemma village_rows_append:
  "village_rows v (xs @ ys) = village_rows v xs @ village_rows v ys"
  by (simp add: village_rows_def)

lemma village_rows_block:
  "village_rows v (map (row_of u) ibs) = (if u = v then map (row_of u) ibs else [])"
  by (induction ibs) (simp_all add: village_rows_def row_of_def)

lemma village_rows_expected:
  "village_rows (int k + 1) (expected_rows n base_df) =
     (if k < n then map (row_of (int k + 1)) (base_with_idx base_df) else [])"
proof (induction n)
  case 0
  show ?case by (simp add: expected_rows_def village_rows_def)
next
  case (Suc n)
  show ?case
    by (simp add: expected_rows_Suc village_rows_append village_rows_block Suc.IH)
qed

section \<open>Gender\<close>

lemma gender_of_row: "GENDER (row_of v ib) = gender_of (fst ib) v"
  by (simp add: row_of_def)

lemma gender_of_Suc: "gender_of (int (Suc i)) v \<noteq> gender_of (int i) v"
proof -
  have "(int (Suc i) mod 2 = 0) \<noteq> (int i mod 2 = 0)"
    by presburger
  then show ?thesis
    by (auto simp add: gender_of_def)
qed

lemma gender_cases: "g = MALE \<or> g = FEMALE"
  by (cases g) simp_all

lemma gender_count_snoc:
  "gender_count g (rows @ [r]) = gender_count g rows + (if GENDER r = g then 1 else 0)"
  by (simp add: gender_count_def)

text \<open>
  The counts over the first \<open>m\<close> rows of a village: equal after an even number of
  rows, and the gender of the last row ahead by one after an odd number.
\<close>

lemma gender_balance_prefix:
  "m \<le> length ibs \<Longrightarrow>
   (\<forall>i<length ibs. fst (ibs ! i) = int i) \<Longrightarrow>
   (even m \<longrightarrow>
      gender_count MALE (map (row_of v) (take m ibs)) =
      gender_count FEMALE (map (row_of v) (take m ibs))) \<and>
   (odd m \<longrightarrow>
      gender_count (gender_of (int (m - 1)) v) (map (row_of v) (take m ibs)) =
      Suc (gender_count (gender_of (int m) v) (map (row_of v) (take m ibs))))"
proof (induction m)
  case 0
  show ?case by (simp add: gender_count_def)
next
  case (Suc m)
  then have m: "m < length ibs" and idx: "fst (ibs ! m) = int m" by simp_all
  have tk: "take (Suc m) ibs = take m ibs @ [ibs ! m]"
    using m by (simp add: take_Suc_conv_app_nth)
  have last: "GENDER (row_of v (ibs ! m)) = gender_of (int m) v"
    by (simp add: gender_of_row idx)
  have IH: "(even m \<longrightarrow>
      gender_count MALE (map (row_of v) (take m ibs)) =
      gender_count FEMALE (map (row_of v) (take m ibs))) \<and>
   (odd m \<longrightarrow>
      gender_count (gender_of (int (m - 1)) v) (map (row_of v) (take m ibs)) =
      Suc (gender_count (gender_of (int m) v) (map (row_of v) (take m ibs))))"
    using Suc by simp
  show ?case
  proof (cases "even m")
    case True
    have ne: "gender_of (int (Suc m)) v \<noteq> gender_of (int m) v"
      by (rule gender_of_Suc)
    from True IH have eq: "gender_count MALE (map (row_of v) (take m ibs)) =
      gender_count FEMALE (map (row_of v) (take m ibs))" by simp
    have "gender_count (gender_of (int m) v) (map (row_of v) (take m ibs)) =
          gender_count (gender_of (int (Suc m)) v) (map (row_of v) (take m ibs))"
      using eq ne gender_cases [of "gender_of (int m) v"]
        gender_cases [of "gender_of (int (Suc m)) v"] by auto
    then show ?thesis
      using True ne by (simp add: tk gender_count_snoc last)
  next
    case False
    then obtain j where j: "m = Suc j" by (cases m) auto
    have ne: "gender_of (int m) v \<noteq> gender_of (int j) v"
      unfolding j by (rule gender_of_Suc)
    from False IH j have eq: "gender_count (gender_of (int j) v) (map (row_of v) (take m ibs)) =
      Suc (gender_count (gender_of (int m) v) (map (row_of v) (take m ibs)))" by simp
    have "gender_count MALE (map (row_of v) (take (Suc m) ibs)) =
          gender_count FEMALE (map (row_of v) (take (Suc m) ibs))"
      using eq ne gender_cases [of "gender_of (int m) v"]
        gender_cases [of "gender_of (int j) v"]
      by (auto simp add: tk gender_count_snoc last)
    then show ?thesis
      using False by simp
  qed
qed

lemma gender_balance:
  "gender_count MALE (map (row_of v) (base_with_idx base_df)) \<le>
     gender_count FEMALE (map (row_of v) (base_with_idx base_df)) + 1 \<and>
   gender_count FEMALE (map (row_of v) (base_with_idx base_df)) \<le>
     gender_count MALE (map (row_of v) (base_with_idx base_df)) + 1"
proof -
  define ibs where "ibs = base_with_idx base_df"
  define m where "m = length ibs"
  have idx: "\<forall>i<length ibs. fst (ibs ! i) = int i"
    by (simp add: ibs_def length_base_with_idx nth_base_with_idx)
  have "m \<le> length ibs" by (simp add: m_def)
  from gender_balance_prefix [OF this idx, of v]
  have bal: "(even m \<longrightarrow>
      gender_count MALE (map (row_of v) ibs) = gender_count FEMALE (map (row_of v) ibs)) \<and>
   (odd m \<longrightarrow>
      gender_count (gender_of (int (m - 1)) v) (map (row_of v) ibs) =
      Suc (gender_count (gender_of (int m) v) (map (row_of v) ibs)))"
    by (simp add: m_def)
  show ?thesis
  proof (cases "even m")
    case True
    with bal show ?thesis by (simp add: ibs_def)
  next
    case False
    then obtain j where j: "m = Suc j" by (cases m) auto
    have ne: "gender_of (int m) v \<noteq> gender_of (int j) v"
      unfolding j by (rule gender_of_Suc)
    from False bal j have "gender_count (gender_of (int j) v) (map (row_of v) ibs) =
      Suc (gender_count (gender_of (int m) v) (map (row_of v) ibs))" by simp
    then show ?thesis
      using ne gender_cases [of "gender_of (int m) v"] gender_cases [of "gender_of (int j) v"]
      by (auto simp add: ibs_def)
  qed
qed

section \<open>Stored rows and selected rows\<close>

lemma selected_columns_with_serial: "selected_columns (with_serial n r) = r"
  by (simp add: selected_columns_def with_serial_def)

lemma selected_columns_number_rows: "map selected_columns (number_rows s rows) = rows"
proof -
  have "map selected_columns (number_rows s rows) = map snd (enumerate 0 rows)"
    by (simp add: number_rows_def selected_columns_with_serial split_def o_def)
  then show ?thesis by (simp add: map_snd_enumerate)
qed

lemma selected_columns_village_rows:
  "map selected_columns (village_rows v rows) = village_rows v (map selected_columns rows)"
  by (simp add: village_rows_def filter_map o_def selected_columns_def)

lemma gender_count_selected_columns:
  "gender_count g (map selected_columns rows) = gender_count g rows"
  by (simp add: gender_count_def filter_map o_def selected_columns_def)

lemma stored_village_rows:
  assumes "k < n"
  shows "map selected_columns (village_rows (int k + 1) (number_rows s (expected_rows n base_df))) =
         map (row_of (int k + 1)) (base_with_idx base_df)"
  using assms
  by (simp add: selected_columns_village_rows selected_columns_number_rows village_rows_expected)

section \<open>Values that fit the columns\<close>

lemma marriage_result_bounds:
  "((v - 1) div 28) * 28 + 1 \<le> marriage_result v c \<and>
   marriage_result v c \<le> ((v - 1) div 28) * 28 + 28"
proof -
  define x where "x = v - ((v - 1) div 28) * 28 + marriage_add c - 1"
  have "0 \<le> x mod 28" and "x mod 28 < 28" by simp_all
  then show ?thesis
    unfolding marriage_result_def x_def [symmetric] by linarith
qed

lemma marriage_result_valid:
  assumes "1 \<le> v" and "v \<le> V" and "V mod 28 = 0"
  shows "1 \<le> marriage_result v c \<and> marriage_result v c \<le> V"
proof -
  from assms(3) obtain q where q: "V = 28 * q" by (auto simp add: mod_eq_0_iff_dvd)
  from assms(1) have d: "0 \<le> (v - 1) div 28" by simp
  from assms(2) q have "v - 1 < 28 * q" by simp
  then have "(v - 1) div 28 < q"
    by (simp add: div_less_iff_less_mult mult.commute)
  then have "((v - 1) div 28) * 28 + 28 \<le> V"
    unfolding q by simp
  with d marriage_result_bounds [of v c] show ?thesis by linarith
qed

section \<open>Numbering the rows\<close>

lemma length_number_rows: "length (number_rows s rows) = length rows"
  by (simp add: number_rows_def)

lemma nth_number_rows:
  "j < length rows \<Longrightarrow> number_rows s rows ! j = with_serial (s + int j) (rows ! j)"
  by (simp add: number_rows_def nth_enumerate_eq)

lemma serials_number_rows:
  "map SERIAL_NO (number_rows 1 rows) = map int [1..<Suc (length rows)]"
proof (rule nth_equalityI)
  show "length (map SERIAL_NO (number_rows 1 rows)) = length (map int [1..<Suc (length rows)])"
    by (simp add: length_number_rows del: upt_Suc)
next
  fix j assume "j < length (map SERIAL_NO (number_rows 1 rows))"
  then have j: "j < length rows" by (simp add: length_number_rows)
  then have "[1..<Suc (length rows)] ! j = 1 + j"
    by (simp del: upt_Suc)
  with j show "map SERIAL_NO (number_rows 1 rows) ! j = map int [1..<Suc (length rows)] ! j"
    by (simp add: length_number_rows nth_number_rows with_serial_def del: upt_Suc)
qed

section \<open>A run of \<^verbatim>\<open>generate_database\<close> in which nothing raises\<close>

lemma load_base_data_frame:
  assumes "load_base_data env w = Inr (df, w1)"
  shows "db_files w1 = db_files w \<and> history_file w1 = history_file w \<and>
         session w1 = session w \<and> log_file w1 = log_file w \<and> messages w1 = messages w"
  using assms
  by (auto simp add: load_base_data_def Let_def split: option.splits if_splits)

lemma load_base_data_db_files:
  assumes "load_base_data env w = Inr (df, w1)"
  shows "load_base_data env (w\<lparr>db_files := d\<rparr>) = Inr (df, w1\<lparr>db_files := d\<rparr>)"
  using assms
  by (auto simp add: load_base_data_def Let_def split: option.splits if_splits)

lemma execute_ok:
  assumes "\<not> fails env op" and "db_files w path = Some db" and "stmt db = Inr db'"
  shows "execute env op stmt path w = Inr (w\<lparr>db_files := (db_files w)(path \<mapsto> db')\<rparr>)"
  using assms by (simp add: execute_def)

lemma row_fits_with_serial:
  "row_fits (with_serial n r) =
     (fits_INTEGER n \<and> fits_INTEGER (COUNTER r) \<and> fits_INTEGER (FAMILY_ID r) \<and>
      fits_INTEGER (PERSON_ID r) \<and>
      (case BIRTH_DATE r of None \<Rightarrow> True | Some d \<Rightarrow> fits_INTEGER d) \<and>
      fits_INTEGER (VILLAGE_ID r) \<and> fits_INTEGER (MARRIED_TO_VILLAGE_ID r))"
  by (simp add: row_fits_def with_serial_def)

lemma expected_rows_fit:
  assumes valid: "valid_village_count V"
      and base: "\<forall>b\<in>set base_df. 1 \<le> b_COUNTER b \<and> base_row_fits b"
      and size: "V * int (length base_df) \<le> 2147483647"
  shows "list_all row_fits (number_rows 1 (expected_rows (nat V) base_df))"
proof -
  define sel where "sel = expected_rows (nat V) base_df"
  from valid have V: "28 \<le> V" "V \<le> 280" "V mod 28 = 0"
    by (simp_all add: valid_village_count_def MIN_VILLAGES_def MAX_VILLAGES_def)
  have len: "int (length sel) = V * int (length base_df)"
    using V by (simp add: sel_def length_expected_rows)
  have "row_fits (number_rows 1 sel ! j)" if j: "j < length sel" for j
  proof -
    from j have "sel ! j \<in> set sel" by simp
    then obtain k ib where k: "k < nat V" and ib: "ib \<in> set (base_with_idx base_df)"
        and r: "sel ! j = row_of (int k + 1) ib"
      unfolding sel_def using in_expected_rows by blast
    from ib have b: "1 \<le> b_COUNTER (snd ib)" "base_row_fits (snd ib)"
      using base snd_base_with_idx by blast+
    from k have v: "1 \<le> int k + 1" "int k + 1 \<le> V" by simp_all
    from marriage_result_valid [OF v V(3)]
    have m: "1 \<le> marriage_result (int k + 1) (b_COUNTER (snd ib))"
       "marriage_result (int k + 1) (b_COUNTER (snd ib)) \<le> V" by simp_all
    from j len size have s: "1 + int j \<le> 2147483647" by simp
    show ?thesis
      using b(2) v V(2) m s
      by (simp add: nth_number_rows [OF j] r row_fits_with_serial row_of_def
            base_row_fits_def fits_INTEGER_def)
  qed
  then show ?thesis
    by (simp add: list_all_length length_number_rows sel_def)
qed

text \<open>
  When the base data loads and no call on the connection raises, the run is decided by
  the insertion: it raises when the query raises or a row does not fit, leaving the new
  file with an empty table, and returns otherwise.
\<close>

lemma generate_database_run:
  assumes load: "load_base_data env w = Inr (base_df, w1)"
      and ok: "\<forall>op. \<not> fails env op"
  shows "generate_database env n w =
     (case population_select n base_df of
        Inl e \<Rightarrow>
          Inl (e, w1\<lparr>db_files := (db_files w)(new_db_path env w \<mapsto>
                 \<lparr>seq = Some 1, population = Some [], idx_village = False\<rparr>)\<rparr>)
      | Inr rows \<Rightarrow>
          if list_all row_fits (number_rows 1 rows)
          then Inr (record_generation env n (new_db_path env w) (length rows)
                 (w1\<lparr>db_files := (db_files w)(new_db_path env w \<mapsto>
                    \<lparr>seq = Some (1 + int (length rows)),
                     population = Some (number_rows 1 rows),
                     idx_village = True\<rparr>)\<rparr>))
          else Inl (DuckDBError ''Conversion Error'',
                 w1\<lparr>db_files := (db_files w)(new_db_path env w \<mapsto>
                   \<lparr>seq = Some 1, population = Some [], idx_village = False\<rparr>)\<rparr>))"
proof -
  define path where "path = new_db_path env w"
  define d0 where "d0 = (db_files w)(path := None)"
  define at where "at db = w1\<lparr>db_files := d0(path \<mapsto> db)\<rparr>" for db
  define db0 where "db0 = \<lparr>seq = Some 1, population = Some [], idx_village = False\<rparr>"
  have w0: "(if db_files w path \<noteq> None then w\<lparr>db_files := (db_files w)(path := None)\<rparr> else w)
      = w\<lparr>db_files := d0\<rparr>"
    by (auto simp add: d0_def fun_upd_idem)
  have l0: "load_base_data env (w\<lparr>db_files := d0\<rparr>) = Inr (base_df, w1\<lparr>db_files := d0\<rparr>)"
    by (rule load_base_data_db_files [OF load])
  have c: "connect env path (w1\<lparr>db_files := d0\<rparr>) = Inr (at empty_database)"
    using ok by (simp add: connect_def at_def d0_def)
  have step: "execute env op stmt path (at db) = Inr (at db')" if "stmt db = Inr db'" for op stmt db db'
    using ok that by (simp add: execute_def at_def)
  have stop: "execute env op stmt path (at db) = Inl e" if "stmt db = Inl e" for op stmt db e
    using ok that by (simp add: execute_def at_def)
  have s1: "execute env Register Inr path (at empty_database) = Inr (at empty_database)"
    by (rule step) simp
  have s2: "execute env CreateFunction Inr path (at empty_database) = Inr (at empty_database)"
    by (rule step) simp
  have s3: "execute env CreateSequence create_sequence path (at empty_database) =
      Inr (at \<lparr>seq = Some 1, population = None, idx_village = False\<rparr>)"
    by (rule step) (simp add: create_sequence_def empty_database_def)
  have s4: "execute env CreateTable create_table path
        (at \<lparr>seq = Some 1, population = None, idx_village = False\<rparr>) = Inr (at db0)"
    by (rule step) (simp add: create_table_def db0_def)
  have fin: "at db = w1\<lparr>db_files := (db_files w)(path \<mapsto> db)\<rparr>" for db
    by (simp add: at_def d0_def)
  have start: "generate_database env n w =
      (case execute env InsertPopulation (insert_population n base_df) path (at db0) of
         Inl e \<Rightarrow> Inl (e, at db0)
       | Inr w7 \<Rightarrow>
           (case execute env CreateIndex create_index path w7 of
              Inl e \<Rightarrow> Inl (e, w7)
            | Inr w8 \<Rightarrow>
                (case fetch_count env path w8 of
                   Inl e \<Rightarrow> Inl (e, w8)
                 | Inr total_records \<Rightarrow>
                     Inr (record_generation env n path total_records w8))))"
    unfolding generate_database_def Let_def path_def [symmetric] w0
    by (simp only: l0 c s1 s2 s3 s4 sum.case prod.case)
  show ?thesis
  proof (cases "population_select n base_df")
    case (Inl e)
    have "execute env InsertPopulation (insert_population n base_df) path (at db0) = Inl e"
      by (rule stop) (simp add: insert_population_def db0_def Inl)
    then show ?thesis
      unfolding start path_def [symmetric] by (simp add: Inl fin db0_def)
  next
    case (Inr rows)
    show ?thesis
    proof (cases "list_all row_fits (number_rows 1 rows)")
      case False
      have "execute env InsertPopulation (insert_population n base_df) path (at db0) =
          Inl (DuckDBError ''Conversion Error'')"
        by (rule stop) (simp add: insert_population_def db0_def Inr False)
      then show ?thesis
        unfolding start path_def [symmetric] by (simp add: Inr False fin db0_def)
    next
      case True
      have s5: "execute env InsertPopulation (insert_population n base_df) path (at db0) =
          Inr (at \<lparr>seq = Some (1 + int (length rows)), population = Some (number_rows 1 rows),
                   idx_village = False\<rparr>)"
        by (rule step) (simp add: insert_population_def db0_def Inr True)
      have s6: "execute env CreateIndex create_index path
            (at \<lparr>seq = Some (1 + int (length rows)), population = Some (number_rows 1 rows),
                   idx_village = False\<rparr>) =
          Inr (at \<lparr>seq = Some (1 + int (length rows)), population = Some (number_rows 1 rows),
                   idx_village = True\<rparr>)"
        by (rule step) (simp add: create_index_def)
      have s7: "fetch_count env path
            (at \<lparr>seq = Some (1 + int (length rows)), population = Some (number_rows 1 rows),
                   idx_village = True\<rparr>) = Inr (length rows)"
        using ok by (simp add: fetch_count_def at_def count_rows_def length_number_rows)
      show ?thesis
        unfolding start path_def [symmetric]
        by (simp only: s5 s6 s7 sum.case Inr True if_True) (simp only: fin)
    qed
  qed
qed

text \<open>A run that returns: no call on the connection raised, and the base data loaded.\<close>

lemma execute_Inr: "execute env op stmt path w = Inr w' \<Longrightarrow> \<not> fails env op"
  by (auto simp add: execute_def split: if_splits)

lemma connect_Inr: "connect env path w = Inr w' \<Longrightarrow> \<not> fails env Connect"
  by (auto simp add: connect_def split: if_splits)

lemma fetch_count_Inr: "fetch_count env path w = Inr t \<Longrightarrow> \<not> fails env CountRows"
  by (auto simp add: fetch_count_def split: if_splits)

lemma generate_database_Inr:
  assumes "generate_database env n w = Inr w'"
  shows "(\<forall>op. \<not> fails env op) \<and> (\<exists>base_df w1. load_base_data env w = Inr (base_df, w1))"
proof -
  define path where "path = new_db_path env w"
  define d0 where "d0 = (db_files w)(path := None)"
  have w0: "(if db_files w path \<noteq> None then w\<lparr>db_files := (db_files w)(path := None)\<rparr> else w)
      = w\<lparr>db_files := d0\<rparr>"
    by (auto simp add: d0_def fun_upd_idem)
  note run = assms [unfolded generate_database_def Let_def, folded path_def, unfolded w0]
  from run obtain base_df w1 where l: "load_base_data env (w\<lparr>db_files := d0\<rparr>) = Inr (base_df, w1)"
    by (cases "load_base_data env (w\<lparr>db_files := d0\<rparr>)") auto
  from run l obtain w2 where c: "connect env path w1 = Inr w2"
    by (cases "connect env path w1") auto
  from run l c obtain w3 where s3: "execute env Register Inr path w2 = Inr w3"
    by (cases "execute env Register Inr path w2") auto
  from run l c s3 obtain w4 where s4: "execute env CreateFunction Inr path w3 = Inr w4"
    by (cases "execute env CreateFunction Inr path w3") auto
  from run l c s3 s4 obtain w5 where s5: "execute env CreateSequence create_sequence path w4 = Inr w5"
    by (cases "execute env CreateSequence create_sequence path w4") auto
  from run l c s3 s4 s5 obtain w6 where s6: "execute env CreateTable create_table path w5 = Inr w6"
    by (cases "execute env CreateTable create_table path w5") auto
  from run l c s3 s4 s5 s6 obtain w7
    where s7: "execute env InsertPopulation (insert_population n base_df) path w6 = Inr w7"
    by (cases "execute env InsertPopulation (insert_population n base_df) path w6") auto
  from run l c s3 s4 s5 s6 s7 obtain w8
    where s8: "execute env CreateIndex create_index path w7 = Inr w8"
    by (cases "execute env CreateIndex create_index path w7") auto
  from run l c s3 s4 s5 s6 s7 s8 obtain t where s9: "fetch_count env path w8 = Inr t"
    by (cases "fetch_count env path w8") auto
  have "\<not> fails env op" for op
    using connect_Inr [OF c] execute_Inr [OF s3] execute_Inr [OF s4] execute_Inr [OF s5]
      execute_Inr [OF s6] execute_Inr [OF s7] execute_Inr [OF s8] fetch_count_Inr [OF s9]
    by (cases op) simp_all
  moreover have "load_base_data env w = Inr (base_df, w1\<lparr>db_files := db_files w\<rparr>)"
    using load_base_data_db_files [OF l, of "db_files w"] by simp
  ultimately show ?thesis by blast
qed

lemma db_files_record_generation:
  "db_files (record_generation env n path t w) = db_files w"
  by (simp add: record_generation_def Let_def)

text \<open>
  A base row too wide for its column: the insertion raises a conversion error and the
  table stays empty.
\<close>

lemma wide_row_not_stored:
  "raised (generate_database (example_env no_failure) 28
       (example_world\<lparr>base_cache := Some wide_base\<rparr>)) = Some (DuckDBError ''Conversion Error'') \<and>
   table_rows (final_world (generate_database (example_env no_failure) 28
       (example_world\<lparr>base_cache := Some wide_base\<rparr>))) example_path = Some 0"
  by code_simp

text \<open>
  C4. For a valid village count \<open>V\<close> (a multiple of 28 between 28 and 280) and base
  data of size \<open>B\<close> whose counters are at least 1 and whose numbers, like
  \<open>V * B\<close>, fit the 32-bit columns of the table: when the base data loads and no call
  on the connection raises, \<^verbatim>\<open>generate_database\<close> returns and leaves in the new
  database file a table of exactly \<open>V * B\<close> rows, whose serial numbers are 1, 2, ...,
  \<open>V * B\<close> in table order; the row with serial \<open>k * B + i + 1\<close> is the row of village
  \<open>k + 1\<close> for the base record at position \<open>i\<close>, with that record's columns, the
  gender of the query and the village returned by the mapping: villages ascending, base
  order within a village.
\<close>

theorem synthesis_rows_and_serials:
  assumes "load_base_data env w = Inr (base_df, w1)"
      and "\<forall>op. \<not> fails env op"
      and "valid_village_count V"
      and "\<forall>b\<in>set base_df. 1 \<le> b_COUNTER b \<and> base_row_fits b"
      and "V * int (length base_df) \<le> 2147483647"
  shows "\<exists>w' db rows.
     generate_database env V w = Inr w' \<and>
     db_files w' (new_db_path env w) = Some db \<and> population db = Some rows \<and>
     length rows = nat V * length base_df \<and>
     map SERIAL_NO rows = map int [1..<Suc (nat V * length base_df)] \<and>
     (\<forall>k<nat V. \<forall>i<length base_df.
        SERIAL_NO (rows ! (k * length base_df + i)) = int (k * length base_df + i) + 1 \<and>
        VILLAGE_ID (rows ! (k * length base_df + i)) = int k + 1 \<and>
        COUNTER (rows ! (k * length base_df + i)) = b_COUNTER (base_df ! i) \<and>
        FAMILY_ID (rows ! (k * length base_df + i)) = b_FAMILY_ID (base_df ! i) \<and>
        PERSON_ID (rows ! (k * length base_df + i)) = b_PERSON_ID (base_df ! i) \<and>
        BIRTH_DATE (rows ! (k * length base_df + i)) = b_BIRTH_DATE_SERIAL (base_df ! i) \<and>
        Date_of_Birth (rows ! (k * length base_df + i)) = b_Date_of_Birth (base_df ! i) \<and>
        GENDER (rows ! (k * length base_df + i)) = gender_of (int i) (int k + 1) \<and>
        get_marriage_to_village_id (int k + 1) (b_COUNTER (base_df ! i)) =
          Inr (MARRIED_TO_VILLAGE_ID (rows ! (k * length base_df + i))))"
proof -
  define sel where "sel = expected_rows (nat V) base_df"
  define db where "db = \<lparr>seq = Some (1 + int (length sel)),
      population = Some (number_rows 1 sel), idx_village = True\<rparr>"
  from assms(3) have V: "28 \<le> V" "V \<le> 280"
    by (simp_all add: valid_village_count_def MIN_VILLAGES_def MAX_VILLAGES_def)
  have counters: "\<forall>b\<in>set base_df. 1 \<le> b_COUNTER b"
    using assms(4) by simp
  have u: "query_upper V = Inr (V + 1)"
    using V by (intro query_upper_ok) (simp_all add: fits_INTEGER_def)
  have s: "population_select V base_df = Inr sel"
    unfolding sel_def by (rule population_select_ok [OF u counters])
  have fit: "list_all row_fits (number_rows 1 sel)"
    unfolding sel_def by (rule expected_rows_fit [OF assms(3,4,5)])
  have len: "length sel = nat V * length base_df"
    by (simp add: sel_def length_expected_rows)
  have run: "generate_database env V w =
      Inr (record_generation env V (new_db_path env w) (length sel)
             (w1\<lparr>db_files := (db_files w)(new_db_path env w \<mapsto> db)\<rparr>))"
    unfolding db_def by (simp add: generate_database_run [OF assms(1,2)] s fit)
  have fl: "db_files (record_generation env V (new_db_path env w) (length sel)
             (w1\<lparr>db_files := (db_files w)(new_db_path env w \<mapsto> db)\<rparr>)) (new_db_path env w) = Some db"
    by (simp add: db_files_record_generation)
  have tbl: "population db = Some (number_rows 1 sel)"
    by (simp add: db_def)
  have serials: "map SERIAL_NO (number_rows 1 sel) = map int [1..<Suc (nat V * length base_df)]"
    using serials_number_rows [of sel] by (simp only: len)
  have rows: "SERIAL_NO (number_rows 1 sel ! (k * length base_df + i)) = int (k * length base_df + i) + 1 \<and>
        VILLAGE_ID (number_rows 1 sel ! (k * length base_df + i)) = int k + 1 \<and>
        COUNTER (number_rows 1 sel ! (k * length base_df + i)) = b_COUNTER (base_df ! i) \<and>
        FAMILY_ID (number_rows 1 sel ! (k * length base_df + i)) = b_FAMILY_ID (base_df ! i) \<and>
        PERSON_ID (number_rows 1 sel ! (k * length base_df + i)) = b_PERSON_ID (base_df ! i) \<and>
        BIRTH_DATE (number_rows 1 sel ! (k * length base_df + i)) = b_BIRTH_DATE_SERIAL (base_df ! i) \<and>
        Date_of_Birth (number_rows 1 sel ! (k * length base_df + i)) = b_Date_of_Birth (base_df ! i) \<and>
        GENDER (number_rows 1 sel ! (k * length base_df + i)) = gender_of (int i) (int k + 1) \<and>
        get_marriage_to_village_id (int k + 1) (b_COUNTER (base_df ! i)) =
          Inr (MARRIED_TO_VILLAGE_ID (number_rows 1 sel ! (k * length base_df + i)))"
    if "k < nat V" and "i < length base_df" for k i
  proof -
    from that have "Suc k * length base_df \<le> nat V * length base_df"
      by (intro mult_le_mono1) simp
    with that have j: "k * length base_df + i < length sel"
      by (simp add: len)
    have r: "sel ! (k * length base_df + i) = row_of (int k + 1) (int i, base_df ! i)"
      unfolding sel_def by (rule nth_expected_rows [OF that])
    from that(2) have "1 \<le> b_COUNTER (base_df ! i)"
      using counters by simp
    then have m: "get_marriage_to_village_id (int k + 1) (b_COUNTER (base_df ! i)) =
        Inr (marriage_result (int k + 1) (b_COUNTER (base_df ! i)))"
      by (intro marriage_value) simp_all
    show ?thesis
      by (simp add: nth_number_rows [OF j] r with_serial_def row_of_def m)
  qed
  show ?thesis
    apply (rule exI [of _ "record_generation env V (new_db_path env w) (length sel)
             (w1\<lparr>db_files := (db_files w)(new_db_path env w \<mapsto> db)\<rparr>)"])
    apply (rule exI [of _ db])
    apply (rule exI [of _ "number_rows 1 sel"])
    apply (intro conjI allI impI)
    apply (rule run)
    apply (rule fl)
    apply (rule tbl)
    apply (simp add: length_number_rows len)
    apply (rule serials)
    apply (simp_all only: rows)
    done
qed

theorem synthesis_rows_and_serials_witness:
  "\<exists>w' db rows.
     generate_database (example_env no_failure) 28 example_world = Inr w' \<and>
     db_files w' example_path = Some db \<and> population db = Some rows \<and>
     length rows = 56 \<and>
     map SERIAL_NO rows = map int [1..<57] \<and>
     SERIAL_NO (rows ! 5) = 6 \<and> VILLAGE_ID (rows ! 5) = 3 \<and> COUNTER (rows ! 5) = 2 \<and>
     GENDER (rows ! 5) = FEMALE"
proof -
  have l: "load_base_data (example_env no_failure) example_world = Inr (example_base, example_world)"
    by (simp add: load_base_data_def example_world_def)
  have f: "\<forall>op. \<not> fails (example_env no_failure) op"
    by (simp add: example_env_def no_failure_def)
  have v: "valid_village_count 28"
    by (simp add: valid_village_count_def MIN_VILLAGES_def MAX_VILLAGES_def)
  have c: "\<forall>b\<in>set example_base. 1 \<le> b_COUNTER b \<and> base_row_fits b"
    by (simp add: example_base_def base_row_fits_def fits_INTEGER_def)
  have len: "length example_base = 2"
    by (simp add: example_base_def)
  have z: "28 * int (length example_base) \<le> 2147483647"
    by (simp add: len)
  have p: "new_db_path (example_env no_failure) example_world = example_path"
    by (simp add: new_db_path_def new_db_id_def example_env_def example_world_def example_path_def)
  show ?thesis
    using synthesis_rows_and_serials [OF l f v c z]
    apply (simp only: p len)
    apply (elim exE conjE)
    subgoal for w' db rows
      apply (rule exI [of _ w'])
      apply (rule exI [of _ db])
      apply (rule exI [of _ rows])
      apply (drule spec [of _ 2])
      apply (drule mp, simp)
      apply (drule spec [of _ 1])
      apply (simp add: example_base_def gender_of_def)
      done
    done
qed

section \<open>Gender of the stored rows\<close>

lemma village_pattern:
  assumes M: "map selected_columns vr = map (row_of v) (base_with_idx base_df)"
  shows "length vr = length base_df"
    and "i < length base_df \<Longrightarrow>
           COUNTER (vr ! i) = b_COUNTER (base_df ! i) \<and> GENDER (vr ! i) = gender_of (int i) v"
    and "gender_count MALE vr \<le> gender_count FEMALE vr + 1 \<and>
         gender_count FEMALE vr \<le> gender_count MALE vr + 1"
proof -
  from arg_cong [OF M, of length] show len: "length vr = length base_df"
    by (simp add: length_base_with_idx)
  show "COUNTER (vr ! i) = b_COUNTER (base_df ! i) \<and> GENDER (vr ! i) = gender_of (int i) v"
    if i: "i < length base_df"
  proof -
    from i len have "map selected_columns vr ! i = selected_columns (vr ! i)" by simp
    with M i have "selected_columns (vr ! i) = row_of v (int i, base_df ! i)"
      by (simp add: length_base_with_idx nth_base_with_idx)
    from arg_cong [OF this, of COUNTER] arg_cong [OF this, of GENDER] show ?thesis
      by (simp add: selected_columns_def row_of_def)
  qed
  have "gender_count g vr = gender_count g (map (row_of v) (base_with_idx base_df))" for g
    using gender_count_selected_columns [of g vr] by (simp only: M)
  then show "gender_count MALE vr \<le> gender_count FEMALE vr + 1 \<and>
         gender_count FEMALE vr \<le> gender_count MALE vr + 1"
    using gender_balance [of v base_df] by simp
qed

text \<open>
  C5. In every run of \<^verbatim>\<open>generate_database\<close> that returns, the stored table holds
  rows of the villages 1 to \<open>V\<close> only, and for each village \<open>k + 1\<close> its rows, in table
  order, are as many as the base records; the row at 0-based position \<open>i\<close> is the one of
  the base record at position \<open>i\<close> and is \<open>MALE\<close> exactly when
  \<open>(i mod 2 = 0) = ((k + 1) mod 2 = 1)\<close> and \<open>FEMALE\<close> otherwise; two consecutive rows
  of a village differ in gender, and its numbers of \<open>MALE\<close> and \<open>FEMALE\<close> rows differ
  by at most 1.
\<close>

theorem stored_gender_checkerboard:
  assumes "generate_database env V w = Inr w'"
  shows "\<exists>base_df w1 db rows.
     load_base_data env w = Inr (base_df, w1) \<and>
     db_files w' (new_db_path env w) = Some db \<and> population db = Some rows \<and>
     (\<forall>r\<in>set rows. \<exists>k<nat V. VILLAGE_ID r = int k + 1) \<and>
     (\<forall>k<nat V.
        length (village_rows (int k + 1) rows) = length base_df \<and>
        (\<forall>i<length base_df.
           COUNTER (village_rows (int k + 1) rows ! i) = b_COUNTER (base_df ! i) \<and>
           (GENDER (village_rows (int k + 1) rows ! i) = MALE) =
             ((int i mod 2 = 0) = ((int k + 1) mod 2 = 1)) \<and>
           (GENDER (village_rows (int k + 1) rows ! i) = FEMALE) =
             ((int i mod 2 = 0) \<noteq> ((int k + 1) mod 2 = 1))) \<and>
        (\<forall>i. Suc i < length base_df \<longrightarrow>
           GENDER (village_rows (int k + 1) rows ! i) \<noteq>
           GENDER (village_rows (int k + 1) rows ! Suc i)) \<and>
        gender_count MALE (village_rows (int k + 1) rows) \<le>
          gender_count FEMALE (village_rows (int k + 1) rows) + 1 \<and>
        gender_count FEMALE (village_rows (int k + 1) rows) \<le>
          gender_count MALE (village_rows (int k + 1) rows) + 1)"
proof -
  from generate_database_Inr [OF assms] obtain base_df w1
    where ok: "\<forall>op. \<not> fails env op" and load: "load_base_data env w = Inr (base_df, w1)"
    by blast
  note run = assms [unfolded generate_database_run [OF load ok]]
  from run obtain sel where s: "population_select V base_df = Inr sel"
    by (cases "population_select V base_df") auto
  have sel: "sel = expected_rows (nat V) base_df"
    using s by (rule population_select_Inr)
  define rows where "rows = number_rows 1 sel"
  define db where "db = \<lparr>seq = Some (1 + int (length sel)),
      population = Some rows, idx_village = True\<rparr>"
  from run s have w': "w' = record_generation env V (new_db_path env w) (length sel)
      (w1\<lparr>db_files := (db_files w)(new_db_path env w \<mapsto> db)\<rparr>)"
    by (simp add: db_def rows_def split: if_splits)
  have fl: "db_files w' (new_db_path env w) = Some db"
    by (simp add: w' db_files_record_generation)
  have tbl: "population db = Some rows"
    by (simp add: db_def)
  have only: "\<exists>k<nat V. VILLAGE_ID r = int k + 1" if "r \<in> set rows" for r
  proof -
    from that have "selected_columns r \<in> set (map selected_columns rows)" by simp
    then have "selected_columns r \<in> set (expected_rows (nat V) base_df)"
      by (simp only: rows_def selected_columns_number_rows sel)
    from in_expected_rows [OF this] obtain k ib
      where "k < nat V" and "selected_columns r = row_of (int k + 1) ib" by blast
    from this(1) arg_cong [OF this(2), of VILLAGE_ID] show ?thesis
      by (auto simp add: selected_columns_def row_of_def)
  qed
  have M: "map selected_columns (village_rows (int k + 1) rows) =
      map (row_of (int k + 1)) (base_with_idx base_df)" if "k < nat V" for k
    unfolding rows_def sel by (rule stored_village_rows [OF that])
  have rule: "(gender_of (int i) v = MALE) = ((int i mod 2 = 0) = (v mod 2 = 1)) \<and>
      (gender_of (int i) v = FEMALE) = ((int i mod 2 = 0) \<noteq> (v mod 2 = 1))" for i v
    by (simp add: gender_of_def)
  show ?thesis
  proof (rule exI [of _ base_df], rule exI [of _ w1], rule exI [of _ db],
      rule exI [of _ rows], intro conjI ballI allI impI)
    show "load_base_data env w = Inr (base_df, w1)" by (rule load)
    show "db_files w' (new_db_path env w) = Some db" by (rule fl)
    show "population db = Some rows" by (rule tbl)
  next
    fix r assume "r \<in> set rows"
    then show "\<exists>k<nat V. VILLAGE_ID r = int k + 1" by (rule only)
  next
    fix k assume "k < nat V"
    then show "length (village_rows (int k + 1) rows) = length base_df"
      by (rule village_pattern(1) [OF M])
  next
    fix k i assume k: "k < nat V" and i: "i < length base_df"
    from village_pattern(2) [OF M [OF k] i]
    show "COUNTER (village_rows (int k + 1) rows ! i) = b_COUNTER (base_df ! i)"
      by simp
  next
    fix k i assume k: "k < nat V" and i: "i < length base_df"
    from village_pattern(2) [OF M [OF k] i] rule [of i "int k + 1"]
    show "(GENDER (village_rows (int k + 1) rows ! i) = MALE) =
        ((int i mod 2 = 0) = ((int k + 1) mod 2 = 1))"
      by simp
  next
    fix k i assume k: "k < nat V" and i: "i < length base_df"
    from village_pattern(2) [OF M [OF k] i] rule [of i "int k + 1"]
    show "(GENDER (village_rows (int k + 1) rows ! i) = FEMALE) =
        ((int i mod 2 = 0) \<noteq> ((int k + 1) mod 2 = 1))"
      by simp
  next
    fix k i assume k: "k < nat V" and i: "Suc i < length base_df"
    then have i': "i < length base_df" by simp
    from village_pattern(2) [OF M [OF k] i] village_pattern(2) [OF M [OF k] i']
      gender_of_Suc [of i "int k + 1"]
    show "GENDER (village_rows (int k + 1) rows ! i) \<noteq>
        GENDER (village_rows (int k + 1) rows ! Suc i)"
      by simp
  next
    fix k assume k: "k < nat V"
    from village_pattern(3) [OF M [OF k]]
    show "gender_count MALE (village_rows (int k + 1) rows) \<le>
        gender_count FEMALE (village_rows (int k + 1) rows) + 1"
      by simp
  next
    fix k assume k: "k < nat V"
    from village_pattern(3) [OF M [OF k]]
    show "gender_count FEMALE (village_rows (int k + 1) rows) \<le>
        gender_count MALE (village_rows (int k + 1) rows) + 1"
      by simp
  qed
qed

theorem stored_gender_checkerboard_witness:
  "\<exists>w' db rows.
     generate_database (example_env no_failure) 28 example_world = Inr w' \<and>
     db_files w' example_path = Some db \<and> population db = Some rows \<and>
     length (village_rows 3 rows) = 2 \<and>
     GENDER (village_rows 3 rows ! 0) = MALE \<and>
     GENDER (village_rows 3 rows ! 1) = FEMALE \<and>
     GENDER (village_rows 3 rows ! 0) \<noteq> GENDER (village_rows 3 rows ! 1) \<and>
     gender_count MALE (village_rows 3 rows) \<le> gender_count FEMALE (village_rows 3 rows) + 1 \<and>
     gender_count FEMALE (village_rows 3 rows) \<le> gender_count MALE (village_rows 3 rows) + 1"
proof -
  have l: "load_base_data (example_env no_failure) example_world = Inr (example_base, example_world)"
    by (simp add: load_base_data_def example_world_def)
  have f: "\<forall>op. \<not> fails (example_env no_failure) op"
    by (simp add: example_env_def no_failure_def)
  have r: "raised (generate_database (example_env no_failure) 28 example_world) = None"
    by code_simp
  then obtain w' where run: "generate_database (example_env no_failure) 28 example_world = Inr w'"
    by (cases "generate_database (example_env no_failure) 28 example_world")
      (auto simp add: raised_def)
  have len: "length example_base = 2"
    by (simp add: example_base_def)
  have p: "new_db_path (example_env no_failure) example_world = example_path"
    by (simp add: new_db_path_def new_db_id_def example_env_def example_world_def example_path_def)
  show ?thesis
    using stored_gender_checkerboard [OF run]
    apply (simp only: p l sum.inject prod.inject)
    apply (elim exE conjE)
    subgoal for base_df w1 db rows
      apply (rule exI [of _ w'])
      apply (rule exI [of _ db])
      apply (rule exI [of _ rows])
      apply (drule spec [of _ 2])
      apply (drule mp, simp)
      apply (simp add: run len [symmetric])
      apply (simp add: len)
      done
    done
qed

section \<open>Validation of the village count\<close>

text \<open>
  C3, as stated, does not hold: \<^verbatim>\<open>generate_database\<close> checks neither that the
  village count is a multiple of 28 nor its range. Called with 30 villages on the example
  world it raises nothing, writes a table of 60 rows and appends an entry to the ledger,
  which was empty before.
\<close>

theorem synthesis_accepts_invalid_count:
  "(30::int) mod 28 \<noteq> 0 \<and>
   raised (generate_database (example_env no_failure) 30 example_world) = None \<and>
   table_rows (final_world (generate_database (example_env no_failure) 30 example_world))
     example_path = Some 60 \<and>
   ledger_entries example_world ''admin'' = [] \<and>
   length (ledger_entries
     (final_world (generate_database (example_env no_failure) 30 example_world)) ''admin'') = 1"
  by code_simp

text \<open>
  C3, amended. The check is in the handler of the generate button: for a village count
  that is not a multiple of 28 it shows the error message and returns without calling
  \<^verbatim>\<open>generate_database\<close>, so that no database file is created or changed and the
  ledger, the log and the session state are as before.
\<close>

theorem generate_button_rejects_non_multiple:
  assumes "num mod 28 \<noteq> 0"
  shows "\<exists>w'. generate_button env num w = Inr w' \<and>
     db_files w' = db_files w \<and> history_file w' = history_file w \<and>
     log_file w' = log_file w \<and> session w' = session w \<and>
     messages w' = messages w @ [Error_message ''Number of villages must be a multiple of 28!'']"
  using assms by (simp add: generate_button_def)

theorem generate_button_rejects_non_multiple_witness:
  "(30::int) mod 28 \<noteq> 0 \<and>
   (\<exists>w'. generate_button (example_env no_failure) 30 example_world = Inr w' \<and>
     db_files w' = db_files example_world \<and> history_file w' = history_file example_world \<and>
     log_file w' = log_file example_world \<and> session w' = session example_world \<and>
     messages w' = messages example_world @
       [Error_message ''Number of villages must be a multiple of 28!''])"
proof -
  have h: "(30::int) mod 28 \<noteq> 0" by simp
  show ?thesis
    using h generate_button_rejects_non_multiple [OF h, of "example_env no_failure" example_world]
    by blast
qed

section \<open>A run of \<^verbatim>\<open>generate_database\<close> that raises\<close>

lemma load_base_data_error:
  assumes "load_base_data env w = Inl e"
  shows "\<exists>m. e = FileNotFoundError m"
  using assms
  by (auto simp add: load_base_data_def Let_def split: option.splits if_splits)

lemma connect_error:
  assumes "connect env path w = Inl e"
  shows "fails env Connect"
  using assms by (auto simp add: connect_def split: if_splits option.splits)

lemma connect_frame:
  assumes "connect env path w = Inr w'"
  shows "history_file w' = history_file w \<and> session w' = session w \<and>
         log_file w' = log_file w \<and> messages w' = messages w \<and> db_files w' path \<noteq> None"
  using assms by (auto simp add: connect_def split: if_splits option.splits)

lemma execute_frame:
  assumes "execute env op stmt path w = Inr w'"
  shows "history_file w' = history_file w \<and> session w' = session w \<and>
         log_file w' = log_file w \<and> messages w' = messages w \<and> db_files w' path \<noteq> None"
  using assms by (auto simp add: execute_def split: if_splits option.splits sum.splits)

lemma removed_frame:
  "history_file (if c then w\<lparr>db_files := d\<rparr> else w) = history_file w \<and>
   session (if c then w\<lparr>db_files := d\<rparr> else w) = session w \<and>
   log_file (if c then w\<lparr>db_files := d\<rparr> else w) = log_file w \<and>
   messages (if c then w\<lparr>db_files := d\<rparr> else w) = messages w"
  by simp

text \<open>
  C8, as stated, does not hold: nothing in \<^verbatim>\<open>generate_database\<close> removes the new
  file when a call on the connection raises. On the example world, where no database file
  exists, a failure of the insertion leaves the new file with an empty table, and a failure
  of the index creation leaves it with all 56 rows.
\<close>

theorem storage_failure_keeps_file:
  "table_rows example_world example_path = None \<and>
   raised (generate_database (example_env insert_fails) 28 example_world) =
     Some (DuckDBError ''IO Error'') \<and>
   table_rows (final_world (generate_database (example_env insert_fails) 28 example_world))
     example_path = Some 0 \<and>
   raised (generate_database (example_env index_fails) 28 example_world) =
     Some (DuckDBError ''IO Error'') \<and>
   table_rows (final_world (generate_database (example_env index_fails) 28 example_world))
     example_path = Some 56"
  by code_simp

text \<open>
  C8, amended. When \<^verbatim>\<open>generate_database\<close> raises, the ledger, the session state,
  the log and the messages are as before the call: no ledger entry is written and the
  session does not point to the new database. The new database file is not removed:
  when the exception comes from a call on the connection after the connection was
  opened, the file is there.
\<close>

theorem storage_failure_writes_no_ledger:
  assumes "generate_database env n w = Inl (e, w')"
  shows "history_file w' = history_file w \<and> session w' = session w \<and>
         log_file w' = log_file w \<and> messages w' = messages w \<and>
         ((\<exists>m. e = DuckDBError m) \<and> \<not> fails env Connect \<longrightarrow>
            db_files w' (new_db_path env w) \<noteq> None)"
proof -
  define path where "path = new_db_path env w"
  define w0 where
    "w0 = (if db_files w path \<noteq> None then w\<lparr>db_files := (db_files w)(path := None)\<rparr> else w)"
  have f0: "history_file w0 = history_file w \<and> session w0 = session w \<and>
      log_file w0 = log_file w \<and> messages w0 = messages w"
    unfolding w0_def by (rule removed_frame)
  note run = assms [unfolded generate_database_def Let_def, folded path_def, folded w0_def]
  show ?thesis
  proof (cases "load_base_data env w0")
    case (Inl e0)
    with run have "e = e0" "w' = w0" by simp_all
    with f0 load_base_data_error [OF Inl] show ?thesis
      unfolding path_def [symmetric] by auto
  next
    case (Inr r)
    obtain base_df w1 where r: "r = (base_df, w1)" by (cases r)
    note l = Inr [unfolded r]
    have f1: "history_file w1 = history_file w \<and> session w1 = session w \<and>
        log_file w1 = log_file w \<and> messages w1 = messages w"
      using load_base_data_frame [OF l] f0 by simp
    show ?thesis
    proof (cases "connect env path w1")
      case (Inl e2)
      with run l have "w' = w1" by simp
      with f1 connect_error [OF Inl] show ?thesis
        unfolding path_def [symmetric] by simp
    next
      case c: (Inr w2)
      have f2: "history_file w2 = history_file w \<and> session w2 = session w \<and>
          log_file w2 = log_file w \<and> messages w2 = messages w \<and> db_files w2 path \<noteq> None"
        using connect_frame [OF c] f1 by simp
      show ?thesis
      proof (cases "execute env Register Inr path w2")
        case (Inl e3)
        with run l c have "w' = w2" by simp
        with f2 show ?thesis unfolding path_def [symmetric] by simp
      next
        case s3: (Inr w3)
        have f3: "history_file w3 = history_file w \<and> session w3 = session w \<and>
            log_file w3 = log_file w \<and> messages w3 = messages w \<and> db_files w3 path \<noteq> None"
          using execute_frame [OF s3] f2 by simp
        show ?thesis
        proof (cases "execute env CreateFunction Inr path w3")
          case (Inl e4)
          with run l c s3 have "w' = w3" by simp
          with f3 show ?thesis unfolding path_def [symmetric] by simp
        next
          case s4: (Inr w4)
          have f4: "history_file w4 = history_file w \<and> session w4 = session w \<and>
              log_file w4 = log_file w \<and> messages w4 = messages w \<and> db_files w4 path \<noteq> None"
            using execute_frame [OF s4] f3 by simp
          show ?thesis
          proof (cases "execute env CreateSequence create_sequence path w4")
            case (Inl e5)
            with run l c s3 s4 have "w' = w4" by simp
            with f4 show ?thesis unfolding path_def [symmetric] by simp
          next
            case s5: (Inr w5)
            have f5: "history_file w5 = history_file w \<and> session w5 = session w \<and>
                log_file w5 = log_file w \<and> messages w5 = messages w \<and> db_files w5 path \<noteq> None"
              using execute_frame [OF s5] f4 by simp
            show ?thesis
            proof (cases "execute env CreateTable create_table path w5")
              case (Inl e6)
              with run l c s3 s4 s5 have "w' = w5" by simp
              with f5 show ?thesis unfolding path_def [symmetric] by simp
            next
              case s6: (Inr w6)
              have f6: "history_file w6 = history_file w \<and> session w6 = session w \<and>
                  log_file w6 = log_file w \<and> messages w6 = messages w \<and> db_files w6 path \<noteq> None"
                using execute_frame [OF s6] f5 by simp
              show ?thesis
              proof (cases "execute env InsertPopulation (insert_population n base_df) path w6")
                case (Inl e7)
                with run l c s3 s4 s5 s6 have "w' = w6" by simp
                with f6 show ?thesis unfolding path_def [symmetric] by simp
              next
                case s7: (Inr w7)
                have f7: "history_file w7 = history_file w \<and> session w7 = session w \<and>
                    log_file w7 = log_file w \<and> messages w7 = messages w \<and> db_files w7 path \<noteq> None"
                  using execute_frame [OF s7] f6 by simp
                show ?thesis
                proof (cases "execute env CreateIndex create_index path w7")
                  case (Inl e8)
                  with run l c s3 s4 s5 s6 s7 have "w' = w7" by simp
                  with f7 show ?thesis unfolding path_def [symmetric] by simp
                next
                  case s8: (Inr w8)
                  have f8: "history_file w8 = history_file w \<and> session w8 = session w \<and>
                      log_file w8 = log_file w \<and> messages w8 = messages w \<and> db_files w8 path \<noteq> None"
                    using execute_frame [OF s8] f7 by simp
                  show ?thesis
                  proof (cases "fetch_count env path w8")
                    case (Inl e9)
                    with run l c s3 s4 s5 s6 s7 s8 have "w' = w8" by simp
                    with f8 show ?thesis unfolding path_def [symmetric] by simp
                  next
                    case (Inr total_records)
                    with run l c s3 s4 s5 s6 s7 s8 have False by simp
                    then show ?thesis ..
                  qed
                qed
              qed
            qed
          qed
        qed
      qed
    qed
  qed
qed

theorem storage_failure_writes_no_ledger_witness:
  "generate_database (example_env insert_fails) 28 example_world =
     Inl (DuckDBError ''IO Error'',
          final_world (generate_database (example_env insert_fails) 28 example_world)) \<and>
   history_file (final_world (generate_database (example_env insert_fails) 28 example_world)) =
     history_file example_world \<and>
   session (final_world (generate_database (example_env insert_fails) 28 example_world)) =
     session example_world \<and>
   db_files (final_world (generate_database (example_env insert_fails) 28 example_world))
     example_path \<noteq> None"
proof -
  have r: "raised (generate_database (example_env insert_fails) 28 example_world) =
      Some (DuckDBError ''IO Error'')"
    by code_simp
  have run: "generate_database (example_env insert_fails) 28 example_world =
     Inl (DuckDBError ''IO Error'',
          final_world (generate_database (example_env insert_fails) 28 example_world))"
    using r by (cases "generate_database (example_env insert_fails) 28 example_world")
      (auto simp add: raised_def final_world_def)
  have c: "\<not> fails (example_env insert_fails) Connect"
    by (simp add: example_env_def insert_fails_def)
  have p: "new_db_path (example_env insert_fails) example_world = example_path"
    by (simp add: new_db_path_def new_db_id_def example_env_def example_world_def example_path_def)
  show ?thesis
    using storage_failure_writes_no_ledger [OF run] c run by (simp add: p)
qed

section \<open>The Excel source and the parquet cache\<close>

text \<open>
  C10. When the Excel source is absent, the module \<^verbatim>\<open>config\<close> raises
  \<open>FileNotFoundError\<close> on import, and so does the start of a run, whether or not the
  parquet cache exists. The loader on its own would return the rows of the parquet cache
  in that situation, but a run that reaches the loader has found the Excel source, so
  that path of the loader is not taken.
\<close>

theorem excel_required_at_config_load:
  "(excel_file w = None \<longrightarrow>
      config w = Inl (FileNotFoundError
        (''Required file '' @ [CHR 0x27] @ BASE_EXCEL @ [CHR 0x27] @ '' not found!'')) \<and>
      main_base_load env w = Inl (FileNotFoundError
        (''Required file '' @ [CHR 0x27] @ BASE_EXCEL @ [CHR 0x27] @ '' not found!'')))
   \<and> (excel_file w = None \<longrightarrow> base_cache w = None \<longrightarrow> parquet_file w = Some df \<longrightarrow>
      load_base_data env w = Inr (df, w\<lparr>base_cache := Some df\<rparr>))
   \<and> (\<forall>r. main_base_load env w = Inr r \<longrightarrow> excel_file w \<noteq> None)"
  by (auto simp add: config_def main_base_load_def load_base_data_def split: if_splits)

theorem excel_required_at_config_load_witness:
  "excel_file (example_world\<lparr>excel_file := None, base_cache := None\<rparr>) = None \<and>
   parquet_file (example_world\<lparr>excel_file := None, base_cache := None\<rparr>) = Some example_base \<and>
   (\<exists>m. main_base_load (example_env no_failure)
           (example_world\<lparr>excel_file := None, base_cache := None\<rparr>) =
         Inl (FileNotFoundError m)) \<and>
   (\<exists>w'. load_base_data (example_env no_failure)
           (example_world\<lparr>excel_file := None, base_cache := None\<rparr>) =
         Inr (example_base, w'))"
proof -
  have e: "excel_file (example_world\<lparr>excel_file := None, base_cache := None\<rparr>) = None"
    by simp
  have c: "base_cache (example_world\<lparr>excel_file := None, base_cache := None\<rparr>) = None"
    by simp
  have p: "parquet_file (example_world\<lparr>excel_file := None, base_cache := None\<rparr>) =
      Some example_base"
    by (simp add: example_world_def)
  show ?thesis
    using excel_required_at_config_load
      [of "example_world\<lparr>excel_file := None, base_cache := None\<rparr>" "example_env no_failure"
          example_base] e c p
    by blast
qed


end
